theory Spec2Isabelle
  imports Complex_Main "HOL-Library.Word" "HOL-Library.Log_Nat"
begin

section \<open>The HTTP check of Kuberhealthy: data model\<close>

text \<open>
  The program is Go, run on a 64-bit target (amd64 or arm64), where Go's \<^verbatim>\<open>int\<close> is a
  64-bit two's complement integer: it is modelled as \<open>64 word\<close>, read with \<open>sint\<close> and
  compared with the signed orders \<open><s\<close> and \<open>\<le>s\<close>; arithmetic wraps around, as in Go.
  \<^verbatim>\<open>time.Duration\<close> is \<^verbatim>\<open>int64\<close> on every target. Go strings are byte strings, as
  \<open>string\<close> is here.
\<close>

type_synonym go_int = "64 word"

text \<open>\<^verbatim>\<open>checkConfig.go\<close>: the constants and the configuration struct.\<close>

definition defaultCount :: go_int where
  "defaultCount = 0"

definition defaultSeconds :: go_int where
  "defaultSeconds = 0"

definition defaultPassingPercent :: go_int where
  "defaultPassingPercent = 100"

definition defaultRequestType :: string where
  "defaultRequestType = ''GET''"

definition defaultRequestBody :: string where
  "defaultRequestBody = ''{}''"

definition defaultExpectedStatusCode :: go_int where
  "defaultExpectedStatusCode = 200"

record CheckConfig =
  CheckURL :: string
  Count :: go_int
  Seconds :: go_int
  PassingPercent :: go_int
  RequestType :: string
  RequestBody :: string
  ExpectedStatusCode :: go_int

text \<open>
  The errors the program builds with \<^verbatim>\<open>fmt.Errorf\<close>, one constructor per message. A
  wrapped cause (\<^verbatim>\<open>%w\<close>) that comes from the standard library is kept as a
  \<open>lib_error\<close>; the \<^verbatim>\<open>*NumError\<close> of \<^verbatim>\<open>strconv.Atoi\<close> is not detailed further.
\<close>

datatype lib_error = LibError string

datatype error =
    EmptyCheckURL
  | UnsupportedProtocol
  | ConvertError string
  | CallError string lib_error
  | WrongRequestType string
  | URLParseError lib_error
  | NotEnoughPassed go_int string string go_int go_int

section \<open>The configuration loader\<close>

text \<open>
  The process environment maps names to values; \<^verbatim>\<open>os.Getenv\<close> returns the empty
  string for a variable that is not set.
\<close>

type_synonym environ = "string \<Rightarrow> string option"

definition Getenv :: "environ \<Rightarrow> string \<Rightarrow> string" where
  "Getenv env key = (case env key of None \<Rightarrow> [] | Some v \<Rightarrow> v)"

text \<open>\<^verbatim>\<open>strings.HasPrefix\<close>.\<close>

definition HasPrefix :: "string \<Rightarrow> string \<Rightarrow> bool" where
  "HasPrefix s pre \<longleftrightarrow> length pre \<le> length s \<and> take (length pre) s = pre"

text \<open>
  \<^verbatim>\<open>strconv.Atoi\<close> on a 64-bit target: an optional sign, then one or more decimal
  digits and nothing else; the value must fit \<^verbatim>\<open>int\<close>. \<open>None\<close> is the \<^verbatim>\<open>*NumError\<close>
  (syntax or range).
\<close>

definition digit_of :: "char \<Rightarrow> nat option" where
  "digit_of c =
     (let n = (of_char c :: nat) in if 48 \<le> n \<and> n \<le> 57 then Some (n - 48) else None)"

fun parse_digits :: "nat \<Rightarrow> string \<Rightarrow> nat option" where
  "parse_digits n [] = Some n"
| "parse_digits n (c # cs) =
     (case digit_of c of None \<Rightarrow> None | Some d \<Rightarrow> parse_digits (n * 10 + d) cs)"

definition Atoi :: "string \<Rightarrow> go_int option" where
  "Atoi s =
     (case s of
        [] \<Rightarrow> None
      | c # cs \<Rightarrow>
          (let neg = (c = CHR ''-'');
               ds = (if c = CHR ''-'' \<or> c = CHR ''+'' then cs else s)
           in if ds = [] then None
              else (case parse_digits 0 ds of
                      None \<Rightarrow> None
                    | Some n \<Rightarrow>
                        if neg then (if n \<le> 2 ^ 63 then Some (- word_of_nat n) else None)
                        else (if n < 2 ^ 63 then Some (word_of_nat n) else None))))"

text \<open>
  \<^verbatim>\<open>parseConfig\<close>, in the order of the source: the defaults, the URL and its two checks,
  then one block per variable. Each block is a function on the configuration built so
  far, and fails as the source returns early.
\<close>

definition defaults :: CheckConfig where
  "defaults =
     \<lparr>CheckURL = [], Count = defaultCount, Seconds = defaultSeconds,
      PassingPercent = defaultPassingPercent, RequestType = defaultRequestType,
      RequestBody = defaultRequestBody, ExpectedStatusCode = defaultExpectedStatusCode\<rparr>"

definition readCheckURL :: "environ \<Rightarrow> CheckConfig \<Rightarrow> error + CheckConfig" where
  "readCheckURL env cfg =
     (let checkURL = Getenv env ''CHECK_URL''
      in if length checkURL = 0 then Inl EmptyCheckURL
         else if \<not> HasPrefix checkURL ''http'' then Inl UnsupportedProtocol
         else Inr (cfg\<lparr>CheckURL := checkURL\<rparr>))"

definition parseCount :: "environ \<Rightarrow> CheckConfig \<Rightarrow> error + CheckConfig" where
  "parseCount env cfg =
     (let count = Getenv env ''COUNT''
      in if length count \<noteq> 0
         then (case Atoi count of
                 None \<Rightarrow> Inl (ConvertError ''COUNT'')
               | Some countValue \<Rightarrow> Inr (cfg\<lparr>Count := countValue\<rparr>))
         else Inr cfg)"

definition parseSeconds :: "environ \<Rightarrow> CheckConfig \<Rightarrow> error + CheckConfig" where
  "parseSeconds env cfg =
     (let seconds = Getenv env ''SECONDS''
      in if length seconds \<noteq> 0
         then (case Atoi seconds of
                 None \<Rightarrow> Inl (ConvertError ''SECONDS'')
               | Some secondsValue \<Rightarrow> Inr (cfg\<lparr>Seconds := secondsValue\<rparr>))
         else Inr cfg)"

definition coercePassingPercent :: "CheckConfig \<Rightarrow> CheckConfig" where
  "coercePassingPercent cfg =
     (if PassingPercent cfg = 0 then cfg\<lparr>PassingPercent := defaultPassingPercent\<rparr> else cfg)"

definition parsePassingPercent :: "environ \<Rightarrow> CheckConfig \<Rightarrow> error + CheckConfig" where
  "parsePassingPercent env cfg =
     (let passing = Getenv env ''PASSING_PERCENT''
      in if length passing \<noteq> 0
         then (case Atoi passing of
                 None \<Rightarrow> Inl (ConvertError ''PASSING_PERCENT'')
               | Some passingValue \<Rightarrow>
                   Inr (coercePassingPercent (cfg\<lparr>PassingPercent := passingValue\<rparr>)))
         else Inr (coercePassingPercent cfg))"

definition parseRequestType :: "environ \<Rightarrow> CheckConfig \<Rightarrow> CheckConfig" where
  "parseRequestType env cfg =
     (let requestType = Getenv env ''REQUEST_TYPE''
      in if length requestType \<noteq> 0 then cfg\<lparr>RequestType := requestType\<rparr> else cfg)"

definition parseRequestBody :: "environ \<Rightarrow> CheckConfig \<Rightarrow> CheckConfig" where
  "parseRequestBody env cfg =
     (let requestBody = Getenv env ''REQUEST_BODY''
      in if length requestBody \<noteq> 0 then cfg\<lparr>RequestBody := requestBody\<rparr> else cfg)"

definition coerceExpectedStatusCode :: "CheckConfig \<Rightarrow> CheckConfig" where
  "coerceExpectedStatusCode cfg =
     (if ExpectedStatusCode cfg = 0
      then cfg\<lparr>ExpectedStatusCode := defaultExpectedStatusCode\<rparr> else cfg)"

definition parseExpectedStatusCode :: "environ \<Rightarrow> CheckConfig \<Rightarrow> error + CheckConfig" where
  "parseExpectedStatusCode env cfg =
     (let expectedStatusCode = Getenv env ''EXPECTED_STATUS_CODE''
      in if length expectedStatusCode \<noteq> 0
         then (case Atoi expectedStatusCode of
                 None \<Rightarrow> Inl (ConvertError ''EXPECTED_STATUS_CODE'')
               | Some statusValue \<Rightarrow>
                   Inr (coerceExpectedStatusCode (cfg\<lparr>ExpectedStatusCode := statusValue\<rparr>)))
         else Inr (coerceExpectedStatusCode cfg))"

definition parseConfig :: "environ \<Rightarrow> error + CheckConfig" where
  "parseConfig env =
     (case readCheckURL env defaults of
        Inl err \<Rightarrow> Inl err
      | Inr cfg1 \<Rightarrow>
     (case parseCount env cfg1 of
        Inl err \<Rightarrow> Inl err
      | Inr cfg2 \<Rightarrow>
     (case parseSeconds env cfg2 of
        Inl err \<Rightarrow> Inl err
      | Inr cfg3 \<Rightarrow>
     (case parsePassingPercent env cfg3 of
        Inl err \<Rightarrow> Inl err
      | Inr cfg4 \<Rightarrow>
          parseExpectedStatusCode env (parseRequestBody env (parseRequestType env cfg4))))))"

section \<open>The request dispatcher\<close>

text \<open>
  A \<^verbatim>\<open>*url.URL\<close> is used through two methods only, \<^verbatim>\<open>String()\<close> and \<^verbatim>\<open>Redacted()\<close>; the
  model keeps the two renderings.
\<close>

record URL =
  url_String :: string
  url_Redacted :: string

record APIRequest =
  URL :: URL
  Type :: string
  Body :: string

text \<open>Of a \<^verbatim>\<open>*http.Response\<close> the program reads the status code only.\<close>

record Response =
  StatusCode :: go_int

text \<open>What \<^verbatim>\<open>http.NewRequest\<close> builds: method, URL and body.\<close>

record Request =
  Method :: string
  ReqURL :: string
  ReqBody :: string

text \<open>
  The effects of a run, in order: the calls to the HTTP client (\<^verbatim>\<open>http.Get\<close> and
  \<^verbatim>\<open>http.DefaultClient.Do\<close>), the log lines with their arguments, the blocking receives
  on the ticker's channel, and the deferred \<^verbatim>\<open>ticker.Stop()\<close>. A call to the client is
  one event, whatever number of requests the client sends to the server for it: the
  default client follows redirects, see \<open>DefaultClient_Do\<close> below.
\<close>

datatype http_call = HttpGet string | ClientDo Request

datatype log_arg = S string | I go_int

datatype event =
    Net http_call
  | Infoln "log_arg list"
  | Errorln "log_arg list"
  | TickerWait
  | TickerStop

text \<open>
  The standard library and the remote server are the environment. \<open>newRequestError\<close>
  says whether \<^verbatim>\<open>http.NewRequest\<close> rejects a method and URL; \<open>roundTrip\<close> gives the
  result of a call to the client, which may depend on everything that happened before it;
  \<open>url_Parse\<close> is \<^verbatim>\<open>url.Parse\<close>. Every call returns: a server that never answers is
  outside the model.
\<close>

record world =
  newRequestError :: "string \<Rightarrow> string \<Rightarrow> lib_error option"
  roundTrip :: "event list \<Rightarrow> http_call \<Rightarrow> lib_error + Response"
  url_Parse :: "string \<Rightarrow> lib_error + URL"

definition MethodGet :: string where
  "MethodGet = ''GET''"

definition MethodPost :: string where
  "MethodPost = ''POST''"

definition MethodPut :: string where
  "MethodPut = ''PUT''"

definition MethodDelete :: string where
  "MethodDelete = ''DELETE''"

definition MethodPatch :: string where
  "MethodPatch = ''PATCH''"

definition NewRequest :: "world \<Rightarrow> string \<Rightarrow> string \<Rightarrow> string \<Rightarrow> lib_error + Request" where
  "NewRequest w method url body =
     (case newRequestError w method url of
        Some err \<Rightarrow> Inl err
      | None \<Rightarrow> Inr \<lparr>Method = method, ReqURL = url, ReqBody = body\<rparr>)"

text \<open>
  \<^verbatim>\<open>callAPI\<close> takes the trace so far and returns its result with the trace extended by
  the network calls it made.
\<close>

definition callAPI :: "world \<Rightarrow> APIRequest \<Rightarrow> event list \<Rightarrow> (error + Response) \<times> event list" where
  "callAPI w request tr =
     (if Type request = MethodGet then
        (let call = HttpGet (url_String (URL request))
         in case roundTrip w tr call of
              Inl err \<Rightarrow> (Inl (CallError (url_Redacted (URL request)) err), tr @ [Net call])
            | Inr response \<Rightarrow> (Inr response, tr @ [Net call]))
      else if Type request = MethodPost \<or> Type request = MethodPut
              \<or> Type request = MethodDelete \<or> Type request = MethodPatch then
        (case NewRequest w (Type request) (url_String (URL request)) (Body request) of
           Inl err \<Rightarrow> (Inl (CallError (url_Redacted (URL request)) err), tr)
         | Inr req \<Rightarrow>
             (case roundTrip w tr (ClientDo req) of
                Inl err \<Rightarrow>
                  (Inl (CallError (url_Redacted (URL request)) err), tr @ [Net (ClientDo req)])
              | Inr response \<Rightarrow> (Inr response, tr @ [Net (ClientDo req)])))
      else (Inl (WrongRequestType (url_Redacted (URL request))), tr))"

subsection \<open>The requests a call to the client puts on the wire\<close>

text \<open>
  \<^verbatim>\<open>http.Get\<close> and \<^verbatim>\<open>http.DefaultClient.Do\<close> go through the default client, which follows
  redirects (\<^verbatim>\<open>Client.do\<close> and \<^verbatim>\<open>redirectBehavior\<close> of \<^verbatim>\<open>net/http\<close>). After a reply 301,
  302 or 303 that has a \<^verbatim>\<open>Location\<close> it sends a new request to that location, without a
  body, and as a GET unless the method was GET or HEAD. After a reply 307 or 308 that has
  a \<^verbatim>\<open>Location\<close> it sends the same method again, with the body of the first request.
  Once ten requests are sent it follows no further redirect and returns the error
  "stopped after 10 redirects". A server maps a request on the wire to its reply, or to
  a transport error; \<open>reply_location\<close> is the \<^verbatim>\<open>Location\<close> header, resolved against the URL
  of the request, and \<open>None\<close> when the header is absent or empty.
\<close>

record WireRequest =
  wire_method :: string
  wire_url :: string
  wire_body :: "string option"

record ServerReply =
  reply_status :: go_int
  reply_location :: "string option"

type_synonym server = "WireRequest \<Rightarrow> lib_error + ServerReply"

definition redirect_to :: "WireRequest \<Rightarrow> WireRequest \<Rightarrow> ServerReply \<Rightarrow> WireRequest option" where
  "redirect_to ireq req reply =
     (case reply_location reply of
        None \<Rightarrow> None
      | Some loc \<Rightarrow>
          if reply_status reply = 301 \<or> reply_status reply = 302 \<or> reply_status reply = 303
          then Some \<lparr>wire_method =
                        (if wire_method req \<noteq> ''GET'' \<and> wire_method req \<noteq> ''HEAD'' then ''GET''
                         else wire_method req),
                      wire_url = loc, wire_body = None\<rparr>
          else if reply_status reply = 307 \<or> reply_status reply = 308
          then Some \<lparr>wire_method = wire_method req, wire_url = loc, wire_body = wire_body ireq\<rparr>
          else None)"

text \<open>
  \<open>send_following srv n ireq via req\<close> sends \<open>req\<close> when \<open>n\<close> more requests are allowed,
  after the requests \<open>via\<close>, the first of which was \<open>ireq\<close>; it returns the result of the
  call and all requests sent.
\<close>

fun send_following ::
  "server \<Rightarrow> nat \<Rightarrow> WireRequest \<Rightarrow> WireRequest list \<Rightarrow> WireRequest
     \<Rightarrow> (lib_error + Response) \<times> WireRequest list" where
  "send_following srv 0 ireq via req = (Inl (LibError ''stopped after 10 redirects''), via)"
| "send_following srv (Suc n) ireq via req =
     (case srv req of
        Inl err \<Rightarrow> (Inl err, via @ [req])
      | Inr reply \<Rightarrow>
          (case redirect_to ireq req reply of
             None \<Rightarrow> (Inr \<lparr>StatusCode = reply_status reply\<rparr>, via @ [req])
           | Some next \<Rightarrow> send_following srv n ireq (via @ [req]) next))"

definition DefaultClient_Do :: "server \<Rightarrow> WireRequest \<Rightarrow> (lib_error + Response) \<times> WireRequest list" where
  "DefaultClient_Do srv req = send_following srv 10 req [] req"

text \<open>
  The first request of a call: \<^verbatim>\<open>http.Get\<close> sends a GET without a body,
  \<^verbatim>\<open>http.DefaultClient.Do\<close> the request that \<^verbatim>\<open>http.NewRequest\<close> built.
\<close>

definition wire_request :: "http_call \<Rightarrow> WireRequest" where
  "wire_request call =
     (case call of
        HttpGet url \<Rightarrow> \<lparr>wire_method = ''GET'', wire_url = url, wire_body = None\<rparr>
      | ClientDo req \<Rightarrow>
          \<lparr>wire_method = Method req, wire_url = ReqURL req, wire_body = Some (ReqBody req)\<rparr>)"

text \<open>
  The environment in which the default client talks to the server \<open>srv\<close>, every URL
  parses and \<^verbatim>\<open>http.NewRequest\<close> accepts every request.
\<close>

definition client_world :: "server \<Rightarrow> world" where
  "client_world srv =
     \<lparr>newRequestError = (\<lambda>method url. None),
      roundTrip = (\<lambda>tr call. fst (DefaultClient_Do srv (wire_request call))),
      url_Parse = (\<lambda>s. Inr \<lparr>url_String = s, url_Redacted = s\<rparr>)\<rparr>"

text \<open>A server that answers 302 at \<^verbatim>\<open>http://x\<close>, pointing to \<^verbatim>\<open>http://y\<close>, and 200 elsewhere.\<close>

definition redirecting_server :: server where
  "redirecting_server req =
     (if wire_url req = ''http://x''
      then Inr \<lparr>reply_status = 302, reply_location = Some ''http://y''\<rparr>
      else Inr \<lparr>reply_status = 200, reply_location = None\<rparr>)"

section \<open>The check loop\<close>

record checkSummary =
  ChecksRan :: go_int
  ChecksPassed :: go_int
  ChecksFailed :: go_int

text \<open>
  \<^verbatim>\<open>time.NewTicker\<close> panics unless the period is positive. A ticker holds its channel
  \<open>C\<close>; \<open>None\<close> is the nil channel.
\<close>

datatype 'a outcome = Panic string | Return 'a

record Ticker =
  C :: "go_int option"

definition Second :: go_int where
  "Second = 1000000000"

definition NewTicker :: "go_int \<Rightarrow> Ticker outcome" where
  "NewTicker d =
     (if d \<le>s 0 then Panic ''non-positive interval for NewTicker''
      else Return \<lparr>C = Some d\<rparr>)"

definition waitForTicker :: "Ticker option \<Rightarrow> event list \<Rightarrow> event list" where
  "waitForTicker ticker tr =
     (case ticker of
        None \<Rightarrow> tr
      | Some t \<Rightarrow> (case C t of None \<Rightarrow> tr | Some d \<Rightarrow> tr @ [TickerWait]))"

text \<open>
  One iteration of the loop of \<^verbatim>\<open>runChecks\<close>, on the summary and the trace. Every log
  line names \<^verbatim>\<open>http.MethodGet\<close>, whatever the method of the request, as the source does.
\<close>

definition loop_body ::
  "world \<Rightarrow> CheckConfig \<Rightarrow> URL \<Rightarrow> Ticker option \<Rightarrow> checkSummary \<times> event list
     \<Rightarrow> checkSummary \<times> event list" where
  "loop_body w cfg parsedURL ticker st =
     (let summary = fst st;
          (result, tr) =
            callAPI w \<lparr>URL = parsedURL, Type = RequestType cfg, Body = RequestBody cfg\<rparr> (snd st);
          summary = summary\<lparr>ChecksRan := ChecksRan summary + 1\<rparr>
      in case result of
           Inl err \<Rightarrow>
             (summary\<lparr>ChecksFailed := ChecksFailed summary + 1\<rparr>,
              waitForTicker ticker
                (tr @ [Errorln [S ''Failed to reach URL:'', S (url_Redacted parsedURL)]]))
         | Inr response \<Rightarrow>
             if StatusCode response \<noteq> ExpectedStatusCode cfg then
               (summary\<lparr>ChecksFailed := ChecksFailed summary + 1\<rparr>,
                waitForTicker ticker
                  (tr @ [Errorln [S ''Got a'', I (StatusCode response), S ''with a'', S MethodGet,
                                  S ''to'', S (url_Redacted parsedURL)]]))
             else
               (summary\<lparr>ChecksPassed := ChecksPassed summary + 1\<rparr>,
                waitForTicker ticker
                  (tr @ [Infoln [S ''Got a'', I (StatusCode response), S ''with a'', S MethodGet,
                                 S ''to'', S (url_Redacted parsedURL)]])))"

function loop ::
  "world \<Rightarrow> CheckConfig \<Rightarrow> URL \<Rightarrow> Ticker option \<Rightarrow> checkSummary \<times> event list
     \<Rightarrow> checkSummary \<times> event list" where
  "loop w cfg parsedURL ticker st =
     (if ChecksRan (fst st) <s Count cfg
      then loop w cfg parsedURL ticker (loop_body w cfg parsedURL ticker st)
      else st)"
  by pat_completeness auto
termination
proof (relation "measure (\<lambda>(w, cfg, parsedURL, ticker, st).
                   nat (sint (Count cfg) - sint (ChecksRan (fst st))))", goal_cases)
  case 1
  show ?case by simp
next
  case (2 w cfg parsedURL ticker st)
  have ran: "ChecksRan (fst (loop_body w cfg parsedURL ticker st)) = ChecksRan (fst st) + 1"
    by (simp add: loop_body_def Let_def split: prod.splits sum.splits)
  have lt: "sint (ChecksRan (fst st)) < sint (Count cfg)"
    using 2 by (simp add: word_sless_alt)
  have ub: "sint (Count cfg) < 2 ^ 63"
    using sint_lt [of "Count cfg"] by simp
  have lb: "- (2 ^ 63) \<le> sint (ChecksRan (fst st))"
    using sint_ge [of "ChecksRan (fst st)"] by simp
  have "sint (ChecksRan (fst st) + 1) = signed_take_bit 63 (sint (ChecksRan (fst st)) + 1)"
    by (simp add: sint_word_ariths)
  also have "\<dots> = sint (ChecksRan (fst st)) + 1"
    using lt ub lb by (intro signed_take_bit_int_eq_self) auto
  finally show ?case
    using lt ran by simp
qed

declare loop.simps [simp del]

text \<open>
  \<^verbatim>\<open>runChecks\<close>: the first log line, the ticker when a pause is configured (its period is
  the \<^verbatim>\<open>int64\<close> product \<^verbatim>\<open>time.Duration(cfg.Seconds) * time.Second\<close>, which wraps), the
  loop, and the deferred stop. The result is the pair the source returns, with the
  trace of the run; the error of the pair is always \<^verbatim>\<open>nil\<close>.
\<close>

definition runChecks ::
  "world \<Rightarrow> CheckConfig \<Rightarrow> URL \<Rightarrow> ((checkSummary \<times> error option) \<times> event list) outcome" where
  "runChecks w cfg parsedURL =
     (let tr0 = [Infoln [S ''Beginning check.'']];
          summary = \<lparr>ChecksRan = 0, ChecksPassed = 0, ChecksFailed = 0\<rparr>
      in if 0 <s Seconds cfg then
           (case NewTicker (Seconds cfg * Second) of
              Panic msg \<Rightarrow> Panic msg
            | Return ticker \<Rightarrow>
                (let (summary, tr) = loop w cfg parsedURL (Some ticker) (summary, tr0)
                 in Return ((summary, None), tr @ [TickerStop])))
         else
           (let (summary, tr) = loop w cfg parsedURL None (summary, tr0)
            in Return ((summary, None), tr)))"

text \<open>
  The states the loop passes through at its head, from a starting state: the starting
  state, and the state after an iteration from any such state where the loop condition
  holds.
\<close>

inductive loop_reaches ::
  "world \<Rightarrow> CheckConfig \<Rightarrow> URL \<Rightarrow> Ticker option \<Rightarrow> checkSummary \<times> event list
     \<Rightarrow> checkSummary \<times> event list \<Rightarrow> bool"
  for w cfg parsedURL ticker st0 where
    start: "loop_reaches w cfg parsedURL ticker st0 st0"
  | iterate: "loop_reaches w cfg parsedURL ticker st0 st \<Longrightarrow> ChecksRan (fst st) <s Count cfg
       \<Longrightarrow> loop_reaches w cfg parsedURL ticker st0 (loop_body w cfg parsedURL ticker st)"

section \<open>The passing threshold and the verdict\<close>

text \<open>
  \<^verbatim>\<open>main\<close> computes the threshold in \<^verbatim>\<open>float32\<close>. A \<^verbatim>\<open>float32\<close> value is modelled by the
  rational number it denotes, and every operation by the exact result rounded to the
  nearest value with a 24-bit significand, ties to even (IEEE 754 binary32, which Go
  prescribes). \<open>float32_exponent x\<close> is the exponent of the binade of \<open>x\<close>, that is
  \<open>\<lfloor>log\<^sub>2 \<bar>x\<bar>\<rfloor>\<close>. The values that arise from two \<^verbatim>\<open>int\<close>s are 0 or lie between
  \<open>2\<^sup>-\<^sup>7\<close> and \<open>2\<^sup>1\<^sup>2\<^sup>0\<close> in magnitude, so neither subnormal numbers nor infinities
  occur.
\<close>

definition float32_exponent :: "rat \<Rightarrow> int" where
  "float32_exponent x =
     (let (a, b) = quotient_of \<bar>x\<bar>; d = bitlen a - bitlen b
      in if 2 powi d \<le> \<bar>x\<bar> then d else d - 1)"

definition round_half_even :: "rat \<Rightarrow> int" where
  "round_half_even x =
     (let n = \<lfloor>x\<rfloor>; r = x - of_int n
      in if r < 1 / 2 then n else if 1 / 2 < r then n + 1 else if even n then n else n + 1)"

definition float32_round :: "rat \<Rightarrow> rat" where
  "float32_round x =
     (if x = 0 then 0
      else (let ulp = 2 powi (float32_exponent x - 23)
            in of_int (round_half_even (x / ulp)) * ulp))"

text \<open>The conversion \<^verbatim>\<open>float32(n)\<close> of an \<^verbatim>\<open>int\<close>, and the \<^verbatim>\<open>float32\<close> quotient and product.\<close>

definition float32_of_int :: "go_int \<Rightarrow> rat" where
  "float32_of_int n = float32_round (of_int (sint n))"

definition float32_div :: "rat \<Rightarrow> rat \<Rightarrow> rat" where
  "float32_div x y = float32_round (x / y)"

definition float32_mul :: "rat \<Rightarrow> rat \<Rightarrow> rat" where
  "float32_mul x y = float32_round (x * y)"

text \<open>
  The conversion \<^verbatim>\<open>int(x)\<close> of a \<^verbatim>\<open>float32\<close> discards the fraction. When the result does
  not fit \<^verbatim>\<open>int\<close> the value is implementation-dependent in Go; \<open>out_of_range\<close> stands
  for what the target gives then.
\<close>

definition int_of_float32 :: "(rat \<Rightarrow> go_int) \<Rightarrow> rat \<Rightarrow> go_int" where
  "int_of_float32 out_of_range x =
     (let t = (if 0 \<le> x then \<lfloor>x\<rfloor> else \<lceil>x\<rceil>)
      in if - (2 ^ 63) \<le> t \<and> t < 2 ^ 63 then word_of_int t else out_of_range x)"

text \<open>The three assignments of \<^verbatim>\<open>main\<close> under "Calculate passing threshold".\<close>

definition passingPercentage :: "CheckConfig \<Rightarrow> rat" where
  "passingPercentage cfg = float32_div (float32_of_int (PassingPercent cfg)) 100"

definition passingScore :: "CheckConfig \<Rightarrow> rat" where
  "passingScore cfg = float32_mul (passingPercentage cfg) (float32_of_int (Count cfg))"

definition passInt :: "(rat \<Rightarrow> go_int) \<Rightarrow> CheckConfig \<Rightarrow> go_int" where
  "passInt out_of_range cfg = int_of_float32 out_of_range (passingScore cfg)"

text \<open>
  What the run reports to Kuberhealthy. \<open>enoughPassed\<close> is the end of \<^verbatim>\<open>main\<close>, from
  "Ensure enough checks passed"; \<open>main\<close> is the whole function, without its log lines
  and without the wait for the Kuberhealthy endpoint, whose error is only logged. A
  failure of the report itself is outside the model.
\<close>

datatype report = ReportFailure error | ReportSuccess

definition enoughPassed :: "go_int \<Rightarrow> checkSummary \<Rightarrow> CheckConfig \<Rightarrow> URL \<Rightarrow> report" where
  "enoughPassed threshold summary cfg parsedURL =
     (if ChecksPassed summary <s threshold
      then ReportFailure
             (NotEnoughPassed (ExpectedStatusCode cfg) (RequestType cfg) (url_Redacted parsedURL)
                (ChecksFailed summary) (ChecksRan summary))
      else ReportSuccess)"

definition main :: "(rat \<Rightarrow> go_int) \<Rightarrow> world \<Rightarrow> environ \<Rightarrow> report outcome" where
  "main out_of_range w env =
     (case parseConfig env of
        Inl err \<Rightarrow> Return (ReportFailure err)
      | Inr cfg \<Rightarrow>
          (case url_Parse w (CheckURL cfg) of
             Inl err \<Rightarrow> Return (ReportFailure (URLParseError err))
           | Inr parsedURL \<Rightarrow>
               (let threshold = passInt out_of_range cfg
                in case runChecks w cfg parsedURL of
                     Panic msg \<Rightarrow> Panic msg
                   | Return ((summary, Some err), tr) \<Rightarrow> Return (ReportFailure err)
                   | Return ((summary, None), tr) \<Rightarrow>
                       Return (enoughPassed threshold summary cfg parsedURL))))"

section \<open>Properties of the configuration loader\<close>

lemmas default_values = defaults_def defaultCount_def defaultSeconds_def
      defaultPassingPercent_def defaultRequestType_def defaultRequestBody_def
      defaultExpectedStatusCode_def

lemma parseConfig_Inr_iff:
  "parseConfig env = Inr cfg \<longleftrightarrow>
     (\<exists>c1 c2 c3 c4. readCheckURL env defaults = Inr c1 \<and> parseCount env c1 = Inr c2
        \<and> parseSeconds env c2 = Inr c3 \<and> parsePassingPercent env c3 = Inr c4
        \<and> parseExpectedStatusCode env (parseRequestBody env (parseRequestType env c4)) = Inr cfg)"
  by (simp add: parseConfig_def split: sum.splits)

lemma readCheckURL_Inr:
  "readCheckURL env c = Inr c' \<longleftrightarrow>
     Getenv env ''CHECK_URL'' \<noteq> [] \<and> HasPrefix (Getenv env ''CHECK_URL'') ''http''
     \<and> c' = c\<lparr>CheckURL := Getenv env ''CHECK_URL''\<rparr>"
  by (auto simp: readCheckURL_def Let_def)

lemma parseCount_Inr:
  "parseCount env c = Inr c' \<longleftrightarrow>
     (if Getenv env ''COUNT'' = [] then c' = c
      else \<exists>v. Atoi (Getenv env ''COUNT'') = Some v \<and> c' = c\<lparr>Count := v\<rparr>)"
  by (auto simp: parseCount_def Let_def split: option.splits)

lemma parseSeconds_Inr:
  "parseSeconds env c = Inr c' \<longleftrightarrow>
     (if Getenv env ''SECONDS'' = [] then c' = c
      else \<exists>v. Atoi (Getenv env ''SECONDS'') = Some v \<and> c' = c\<lparr>Seconds := v\<rparr>)"
  by (auto simp: parseSeconds_def Let_def split: option.splits)

lemma parsePassingPercent_Inr:
  "parsePassingPercent env c = Inr c' \<longleftrightarrow>
     (if Getenv env ''PASSING_PERCENT'' = [] then c' = coercePassingPercent c
      else \<exists>v. Atoi (Getenv env ''PASSING_PERCENT'') = Some v
             \<and> c' = coercePassingPercent (c\<lparr>PassingPercent := v\<rparr>))"
  by (auto simp: parsePassingPercent_def Let_def split: option.splits)

lemma parseExpectedStatusCode_Inr:
  "parseExpectedStatusCode env c = Inr c' \<longleftrightarrow>
     (if Getenv env ''EXPECTED_STATUS_CODE'' = [] then c' = coerceExpectedStatusCode c
      else \<exists>v. Atoi (Getenv env ''EXPECTED_STATUS_CODE'') = Some v
             \<and> c' = coerceExpectedStatusCode (c\<lparr>ExpectedStatusCode := v\<rparr>))"
  by (auto simp: parseExpectedStatusCode_def Let_def split: option.splits)

lemma CheckURL_steps [simp]:
  "CheckURL (coercePassingPercent c) = CheckURL c"
  "CheckURL (coerceExpectedStatusCode c) = CheckURL c"
  "CheckURL (parseRequestType env c) = CheckURL c"
  "CheckURL (parseRequestBody env c) = CheckURL c"
  by (simp_all add: coercePassingPercent_def coerceExpectedStatusCode_def
      parseRequestType_def parseRequestBody_def Let_def)

lemma parseConfig_Inr_CheckURL:
  assumes "parseConfig env = Inr cfg"
  shows "CheckURL cfg = Getenv env ''CHECK_URL''"
proof -
  from assms obtain c1 c2 c3 c4 where
    s1: "readCheckURL env defaults = Inr c1" and s2: "parseCount env c1 = Inr c2"
    and s3: "parseSeconds env c2 = Inr c3" and s4: "parsePassingPercent env c3 = Inr c4"
    and s5: "parseExpectedStatusCode env (parseRequestBody env (parseRequestType env c4)) = Inr cfg"
    unfolding parseConfig_Inr_iff by blast
  have "CheckURL c1 = Getenv env ''CHECK_URL''" using s1 by (simp add: readCheckURL_Inr)
  moreover have "CheckURL c2 = CheckURL c1" using s2 by (auto simp: parseCount_Inr split: if_splits)
  moreover have "CheckURL c3 = CheckURL c2" using s3 by (auto simp: parseSeconds_Inr split: if_splits)
  moreover have "CheckURL c4 = CheckURL c3" using s4 by (auto simp: parsePassingPercent_Inr split: if_splits)
  moreover have "CheckURL cfg = CheckURL c4" using s5 by (auto simp: parseExpectedStatusCode_Inr split: if_splits)
  ultimately show ?thesis by simp
qed


lemma HasPrefix_http_nonempty: "HasPrefix u ''http'' \<Longrightarrow> u \<noteq> []"
  by (auto simp: HasPrefix_def)

lemma readCheckURL_Inl:
  "readCheckURL env c = Inl e \<longleftrightarrow>
     (Getenv env ''CHECK_URL'' = [] \<and> e = EmptyCheckURL)
     \<or> (Getenv env ''CHECK_URL'' \<noteq> [] \<and> \<not> HasPrefix (Getenv env ''CHECK_URL'') ''http''
          \<and> e = UnsupportedProtocol)"
  by (auto simp: readCheckURL_def Let_def)

lemma parseCount_Inl:
  "parseCount env c = Inl e \<longleftrightarrow>
     Getenv env ''COUNT'' \<noteq> [] \<and> Atoi (Getenv env ''COUNT'') = None \<and> e = ConvertError ''COUNT''"
  by (auto simp: parseCount_def Let_def split: option.splits)

lemma parseSeconds_Inl:
  "parseSeconds env c = Inl e \<longleftrightarrow>
     Getenv env ''SECONDS'' \<noteq> [] \<and> Atoi (Getenv env ''SECONDS'') = None
     \<and> e = ConvertError ''SECONDS''"
  by (auto simp: parseSeconds_def Let_def split: option.splits)

lemma parsePassingPercent_Inl:
  "parsePassingPercent env c = Inl e \<longleftrightarrow>
     Getenv env ''PASSING_PERCENT'' \<noteq> [] \<and> Atoi (Getenv env ''PASSING_PERCENT'') = None
     \<and> e = ConvertError ''PASSING_PERCENT''"
  by (auto simp: parsePassingPercent_def Let_def split: option.splits)

lemma parseExpectedStatusCode_Inl:
  "parseExpectedStatusCode env c = Inl e \<longleftrightarrow>
     Getenv env ''EXPECTED_STATUS_CODE'' \<noteq> []
     \<and> Atoi (Getenv env ''EXPECTED_STATUS_CODE'') = None
     \<and> e = ConvertError ''EXPECTED_STATUS_CODE''"
  by (auto simp: parseExpectedStatusCode_def Let_def split: option.splits)

lemma parseConfig_Inl_cases:
  assumes "parseConfig env = Inl e"
  shows "readCheckURL env defaults = Inl e
     \<or> (\<exists>k \<in> {''COUNT'', ''SECONDS'', ''PASSING_PERCENT'', ''EXPECTED_STATUS_CODE''}.
           e = ConvertError k \<and> Getenv env k \<noteq> [] \<and> Atoi (Getenv env k) = None)"
proof (cases "readCheckURL env defaults")
  case (Inl e1)
  with assms show ?thesis by (simp add: parseConfig_def)
next
  case c1: (Inr c1)
  show ?thesis
  proof (cases "parseCount env c1")
    case (Inl e2)
    with assms c1 have "parseCount env c1 = Inl e" by (simp add: parseConfig_def)
    then show ?thesis by (simp add: parseCount_Inl)
  next
    case c2: (Inr c2)
    show ?thesis
    proof (cases "parseSeconds env c2")
      case (Inl e3)
      with assms c1 c2 have "parseSeconds env c2 = Inl e" by (simp add: parseConfig_def)
      then show ?thesis by (simp add: parseSeconds_Inl)
    next
      case c3: (Inr c3)
      show ?thesis
      proof (cases "parsePassingPercent env c3")
        case (Inl e4)
        with assms c1 c2 c3 have "parsePassingPercent env c3 = Inl e"
          by (simp add: parseConfig_def)
        then show ?thesis by (simp add: parsePassingPercent_Inl)
      next
        case c4: (Inr c4)
        with assms c1 c2 c3
        have "parseExpectedStatusCode env (parseRequestBody env (parseRequestType env c4)) = Inl e"
          by (simp add: parseConfig_def)
        then show ?thesis by (simp add: parseExpectedStatusCode_Inl)
      qed
    qed
  qed
qed

lemma parseConfig_empty_url:
  "Getenv env ''CHECK_URL'' = [] \<Longrightarrow> parseConfig env = Inl EmptyCheckURL"
  by (simp add: parseConfig_def readCheckURL_def)

lemma parseConfig_bad_prefix:
  "Getenv env ''CHECK_URL'' \<noteq> [] \<Longrightarrow> \<not> HasPrefix (Getenv env ''CHECK_URL'') ''http''
     \<Longrightarrow> parseConfig env = Inl UnsupportedProtocol"
  by (simp add: parseConfig_def readCheckURL_def)

lemma parseConfig_prefix_errors:
  assumes "HasPrefix (Getenv env ''CHECK_URL'') ''http''"
  shows "parseConfig env \<noteq> Inl EmptyCheckURL" "parseConfig env \<noteq> Inl UnsupportedProtocol"
proof -
  have ne: "Getenv env ''CHECK_URL'' \<noteq> []"
    using assms by (rule HasPrefix_http_nonempty)
  show "parseConfig env \<noteq> Inl EmptyCheckURL"
    using parseConfig_Inl_cases [of env EmptyCheckURL] assms ne
    by (auto simp: readCheckURL_Inl)
  show "parseConfig env \<noteq> Inl UnsupportedProtocol"
    using parseConfig_Inl_cases [of env UnsupportedProtocol] assms ne
    by (auto simp: readCheckURL_Inl)
qed

lemma parseConfig_accepts:
  assumes pre: "HasPrefix (Getenv env ''CHECK_URL'') ''http''"
    and num: "\<forall>k \<in> {''COUNT'', ''SECONDS'', ''PASSING_PERCENT'', ''EXPECTED_STATUS_CODE''}.
           Getenv env k = [] \<or> Atoi (Getenv env k) \<noteq> None"
  shows "\<exists>cfg. parseConfig env = Inr cfg"
proof (cases "parseConfig env")
  case (Inl e)
  from parseConfig_Inl_cases [OF Inl] show ?thesis
  proof
    assume "readCheckURL env defaults = Inl e"
    with pre HasPrefix_http_nonempty [OF pre] show ?thesis
      by (simp add: readCheckURL_Inl)
  next
    assume "\<exists>k \<in> {''COUNT'', ''SECONDS'', ''PASSING_PERCENT'', ''EXPECTED_STATUS_CODE''}.
           e = ConvertError k \<and> Getenv env k \<noteq> [] \<and> Atoi (Getenv env k) = None"
    with num show ?thesis by blast
  qed
next
  case (Inr cfg)
  then show ?thesis by blast
qed


lemma coercePassingPercent_fields [simp]:
  "Count (coercePassingPercent c) = Count c"
  "Seconds (coercePassingPercent c) = Seconds c"
  "RequestType (coercePassingPercent c) = RequestType c"
  "RequestBody (coercePassingPercent c) = RequestBody c"
  "ExpectedStatusCode (coercePassingPercent c) = ExpectedStatusCode c"
  "PassingPercent (coercePassingPercent c) =
     (if PassingPercent c = 0 then defaultPassingPercent else PassingPercent c)"
  by (simp_all add: coercePassingPercent_def)

lemma coerceExpectedStatusCode_fields [simp]:
  "Count (coerceExpectedStatusCode c) = Count c"
  "Seconds (coerceExpectedStatusCode c) = Seconds c"
  "RequestType (coerceExpectedStatusCode c) = RequestType c"
  "RequestBody (coerceExpectedStatusCode c) = RequestBody c"
  "PassingPercent (coerceExpectedStatusCode c) = PassingPercent c"
  "ExpectedStatusCode (coerceExpectedStatusCode c) =
     (if ExpectedStatusCode c = 0 then defaultExpectedStatusCode else ExpectedStatusCode c)"
  by (simp_all add: coerceExpectedStatusCode_def)

lemma parseRequestType_fields [simp]:
  "Count (parseRequestType env c) = Count c"
  "Seconds (parseRequestType env c) = Seconds c"
  "PassingPercent (parseRequestType env c) = PassingPercent c"
  "RequestBody (parseRequestType env c) = RequestBody c"
  "ExpectedStatusCode (parseRequestType env c) = ExpectedStatusCode c"
  "RequestType (parseRequestType env c) =
     (if Getenv env ''REQUEST_TYPE'' = [] then RequestType c else Getenv env ''REQUEST_TYPE'')"
  by (simp_all add: parseRequestType_def Let_def)

lemma parseRequestBody_fields [simp]:
  "Count (parseRequestBody env c) = Count c"
  "Seconds (parseRequestBody env c) = Seconds c"
  "PassingPercent (parseRequestBody env c) = PassingPercent c"
  "RequestType (parseRequestBody env c) = RequestType c"
  "ExpectedStatusCode (parseRequestBody env c) = ExpectedStatusCode c"
  "RequestBody (parseRequestBody env c) =
     (if Getenv env ''REQUEST_BODY'' = [] then RequestBody c else Getenv env ''REQUEST_BODY'')"
  by (simp_all add: parseRequestBody_def Let_def)

text \<open>The fields of an accepted configuration, one by one.\<close>

lemma parseConfig_Inr_fields:
  assumes "parseConfig env = Inr cfg"
  shows "Count cfg = (case Atoi (Getenv env ''COUNT'') of None \<Rightarrow> defaultCount | Some v \<Rightarrow> v)"
    and "Seconds cfg = (case Atoi (Getenv env ''SECONDS'') of None \<Rightarrow> defaultSeconds | Some v \<Rightarrow> v)"
    and "PassingPercent cfg =
           (case Atoi (Getenv env ''PASSING_PERCENT'') of
              None \<Rightarrow> defaultPassingPercent
            | Some v \<Rightarrow> if v = 0 then defaultPassingPercent else v)"
    and "RequestType cfg =
           (if Getenv env ''REQUEST_TYPE'' = [] then defaultRequestType
            else Getenv env ''REQUEST_TYPE'')"
    and "RequestBody cfg =
           (if Getenv env ''REQUEST_BODY'' = [] then defaultRequestBody
            else Getenv env ''REQUEST_BODY'')"
    and "ExpectedStatusCode cfg =
           (case Atoi (Getenv env ''EXPECTED_STATUS_CODE'') of
              None \<Rightarrow> defaultExpectedStatusCode
            | Some v \<Rightarrow> if v = 0 then defaultExpectedStatusCode else v)"
proof -
  have Atoi_Nil: "Atoi [] = None" by (simp add: Atoi_def)
  from assms obtain c1 c2 c3 c4 where
    s1: "readCheckURL env defaults = Inr c1" and s2: "parseCount env c1 = Inr c2"
    and s3: "parseSeconds env c2 = Inr c3" and s4: "parsePassingPercent env c3 = Inr c4"
    and s5: "parseExpectedStatusCode env (parseRequestBody env (parseRequestType env c4)) = Inr cfg"
    unfolding parseConfig_Inr_iff by blast
  have c1: "c1 = defaults\<lparr>CheckURL := Getenv env ''CHECK_URL''\<rparr>"
    using s1 by (simp add: readCheckURL_Inr)
  have c2: "c2 = c1\<lparr>Count := (case Atoi (Getenv env ''COUNT'') of None \<Rightarrow> defaultCount | Some v \<Rightarrow> v)\<rparr>"
    using s2 by (auto simp: parseCount_Inr c1 defaults_def Atoi_Nil split: if_splits)
  have c3: "c3 = c2\<lparr>Seconds := (case Atoi (Getenv env ''SECONDS'') of None \<Rightarrow> defaultSeconds | Some v \<Rightarrow> v)\<rparr>"
    using s3 by (auto simp: parseSeconds_Inr c2 c1 defaults_def Atoi_Nil split: if_splits)
  have c4: "c4 = coercePassingPercent (c3\<lparr>PassingPercent :=
      (case Atoi (Getenv env ''PASSING_PERCENT'') of None \<Rightarrow> defaultPassingPercent | Some v \<Rightarrow> v)\<rparr>)"
    using s4 by (auto simp: parsePassingPercent_Inr c3 c2 c1 defaults_def Atoi_Nil split: if_splits)
  have c5: "cfg = coerceExpectedStatusCode ((parseRequestBody env (parseRequestType env c4))
      \<lparr>ExpectedStatusCode := (case Atoi (Getenv env ''EXPECTED_STATUS_CODE'') of
           None \<Rightarrow> ExpectedStatusCode c4 | Some v \<Rightarrow> v)\<rparr>)"
    using s5 by (auto simp: parseExpectedStatusCode_Inr Atoi_Nil split: if_splits)
  show "Count cfg = (case Atoi (Getenv env ''COUNT'') of None \<Rightarrow> defaultCount | Some v \<Rightarrow> v)"
    by (simp add: c5 c4 c3 c2)
  show "Seconds cfg = (case Atoi (Getenv env ''SECONDS'') of None \<Rightarrow> defaultSeconds | Some v \<Rightarrow> v)"
    by (simp add: c5 c4 c3)
  show "PassingPercent cfg =
           (case Atoi (Getenv env ''PASSING_PERCENT'') of
              None \<Rightarrow> defaultPassingPercent
            | Some v \<Rightarrow> if v = 0 then defaultPassingPercent else v)"
    by (simp add: c5 c4 defaultPassingPercent_def split: option.splits)
  show "RequestType cfg =
           (if Getenv env ''REQUEST_TYPE'' = [] then defaultRequestType
            else Getenv env ''REQUEST_TYPE'')"
    by (simp add: c5 c4 c3 c2 c1 defaults_def)
  show "RequestBody cfg =
           (if Getenv env ''REQUEST_BODY'' = [] then defaultRequestBody
            else Getenv env ''REQUEST_BODY'')"
    by (simp add: c5 c4 c3 c2 c1 defaults_def)
  show "ExpectedStatusCode cfg =
           (case Atoi (Getenv env ''EXPECTED_STATUS_CODE'') of
              None \<Rightarrow> defaultExpectedStatusCode
            | Some v \<Rightarrow> if v = 0 then defaultExpectedStatusCode else v)"
    by (simp add: c5 c4 c3 c2 c1 defaults_def defaultExpectedStatusCode_def split: option.splits)
qed


text \<open>Each block of \<open>parseConfig\<close> reads one variable, through \<open>Getenv\<close>.\<close>

lemma step_reads:
  "Getenv env1 ''CHECK_URL'' = Getenv env2 ''CHECK_URL'' \<Longrightarrow> readCheckURL env1 = readCheckURL env2"
  "Getenv env1 ''COUNT'' = Getenv env2 ''COUNT'' \<Longrightarrow> parseCount env1 = parseCount env2"
  "Getenv env1 ''SECONDS'' = Getenv env2 ''SECONDS'' \<Longrightarrow> parseSeconds env1 = parseSeconds env2"
  "Getenv env1 ''PASSING_PERCENT'' = Getenv env2 ''PASSING_PERCENT''
     \<Longrightarrow> parsePassingPercent env1 = parsePassingPercent env2"
  "Getenv env1 ''REQUEST_TYPE'' = Getenv env2 ''REQUEST_TYPE''
     \<Longrightarrow> parseRequestType env1 = parseRequestType env2"
  "Getenv env1 ''REQUEST_BODY'' = Getenv env2 ''REQUEST_BODY''
     \<Longrightarrow> parseRequestBody env1 = parseRequestBody env2"
  "Getenv env1 ''EXPECTED_STATUS_CODE'' = Getenv env2 ''EXPECTED_STATUS_CODE''
     \<Longrightarrow> parseExpectedStatusCode env1 = parseExpectedStatusCode env2"
  by (simp_all add: fun_eq_iff readCheckURL_def parseCount_def parseSeconds_def
      parsePassingPercent_def parseRequestType_def parseRequestBody_def
      parseExpectedStatusCode_def)

lemma parseConfig_Getenv_cong:
  assumes "Getenv env1 = Getenv env2"
  shows "parseConfig env1 = parseConfig env2"
  unfolding parseConfig_def
  by (simp only: step_reads(1) [of env1 env2] step_reads(2) [of env1 env2]
      step_reads(3) [of env1 env2] step_reads(4) [of env1 env2] step_reads(5) [of env1 env2]
      step_reads(6) [of env1 env2] step_reads(7) [of env1 env2] assms)

lemma Getenv_upd: "Getenv (env(k \<mapsto> v)) k' = (if k' = k then v else Getenv env k')"
  by (simp add: Getenv_def)

lemma Getenv_empty_unset: "Getenv (env(k \<mapsto> [])) = Getenv (env(k := None))"
  by (rule ext) (simp add: Getenv_def)

lemma parsePassingPercent_zero:
  assumes "Atoi s = Some 0"
  shows "parsePassingPercent (env(''PASSING_PERCENT'' \<mapsto> s))
           = parsePassingPercent (env(''PASSING_PERCENT'' \<mapsto> ''100''))"
proof -
  have "s \<noteq> []" using assms by (auto simp: Atoi_def)
  moreover have "Atoi ''100'' = Some 100" by (simp add: Atoi_def digit_of_def)
  ultimately show ?thesis using assms
    by (simp add: fun_eq_iff parsePassingPercent_def Getenv_upd coercePassingPercent_def
        defaultPassingPercent_def)
qed

lemma parseExpectedStatusCode_zero:
  assumes "Atoi s = Some 0"
  shows "parseExpectedStatusCode (env(''EXPECTED_STATUS_CODE'' \<mapsto> s))
           = parseExpectedStatusCode (env(''EXPECTED_STATUS_CODE'' \<mapsto> ''200''))"
proof -
  have "s \<noteq> []" using assms by (auto simp: Atoi_def)
  moreover have "Atoi ''200'' = Some 200" by (simp add: Atoi_def digit_of_def)
  ultimately show ?thesis using assms
    by (simp add: fun_eq_iff parseExpectedStatusCode_def Getenv_upd coerceExpectedStatusCode_def
        defaultExpectedStatusCode_def)
qed

lemma parseConfig_PASSING_PERCENT_zero:
  assumes "Atoi s = Some 0"
  shows "parseConfig (env(''PASSING_PERCENT'' \<mapsto> s))
           = parseConfig (env(''PASSING_PERCENT'' \<mapsto> ''100''))"
proof -
  let ?e0 = "env(''PASSING_PERCENT'' \<mapsto> s)" and ?e1 = "env(''PASSING_PERCENT'' \<mapsto> ''100'')"
  have "readCheckURL ?e0 = readCheckURL ?e1" "parseCount ?e0 = parseCount ?e1"
    "parseSeconds ?e0 = parseSeconds ?e1" "parseRequestType ?e0 = parseRequestType ?e1"
    "parseRequestBody ?e0 = parseRequestBody ?e1"
    "parseExpectedStatusCode ?e0 = parseExpectedStatusCode ?e1"
    by (rule step_reads, simp add: Getenv_upd)+
  then show ?thesis
    unfolding parseConfig_def by (simp only: parsePassingPercent_zero [OF assms])
qed

lemma parseConfig_EXPECTED_STATUS_CODE_zero:
  assumes "Atoi s = Some 0"
  shows "parseConfig (env(''EXPECTED_STATUS_CODE'' \<mapsto> s))
           = parseConfig (env(''EXPECTED_STATUS_CODE'' \<mapsto> ''200''))"
proof -
  let ?e0 = "env(''EXPECTED_STATUS_CODE'' \<mapsto> s)"
    and ?e1 = "env(''EXPECTED_STATUS_CODE'' \<mapsto> ''200'')"
  have "readCheckURL ?e0 = readCheckURL ?e1" "parseCount ?e0 = parseCount ?e1"
    "parseSeconds ?e0 = parseSeconds ?e1" "parsePassingPercent ?e0 = parsePassingPercent ?e1"
    "parseRequestType ?e0 = parseRequestType ?e1"
    "parseRequestBody ?e0 = parseRequestBody ?e1"
    by (rule step_reads, simp add: Getenv_upd)+
  then show ?thesis
    unfolding parseConfig_def by (simp only: parseExpectedStatusCode_zero [OF assms])
qed

text \<open>
  Claim C3. A \<^verbatim>\<open>PASSING_PERCENT\<close> that parses to 0 gives the configuration that
  \<^verbatim>\<open>PASSING_PERCENT=100\<close> gives, and an \<^verbatim>\<open>EXPECTED_STATUS_CODE\<close> that parses to 0 the
  configuration that \<^verbatim>\<open>EXPECTED_STATUS_CODE=200\<close> gives, so everything computed from the
  configuration agrees, the threshold \<open>passInt\<close> in particular; in an accepted
  configuration a parsed 0 has become 100, respectively 200, and any other parsed value is
  kept. Such a 0 is accepted: when the URL starts with \<^verbatim>\<open>http\<close> and the other numeric
  variables are unset, empty or integers, \<open>parseConfig\<close> returns a configuration, with
  \<open>PassingPercent = 100\<close>, respectively \<open>ExpectedStatusCode = 200\<close>.
\<close>

theorem parseConfig_zero_coerced:
  "(Atoi s = Some 0 \<longrightarrow>
      parseConfig (env(''PASSING_PERCENT'' \<mapsto> s))
        = parseConfig (env(''PASSING_PERCENT'' \<mapsto> ''100'')))
   \<and> (Atoi s = Some 0 \<longrightarrow>
      parseConfig (env(''EXPECTED_STATUS_CODE'' \<mapsto> s))
        = parseConfig (env(''EXPECTED_STATUS_CODE'' \<mapsto> ''200'')))
   \<and> (\<forall>cfg v. parseConfig env = Inr cfg \<and> Atoi (Getenv env ''PASSING_PERCENT'') = Some v
         \<longrightarrow> PassingPercent cfg = (if v = 0 then 100 else v))
   \<and> (\<forall>cfg v. parseConfig env = Inr cfg \<and> Atoi (Getenv env ''EXPECTED_STATUS_CODE'') = Some v
         \<longrightarrow> ExpectedStatusCode cfg = (if v = 0 then 200 else v))
   \<and> (\<forall>cfg0 cfg100. Atoi s = Some 0
         \<and> parseConfig (env(''PASSING_PERCENT'' \<mapsto> s)) = Inr cfg0
         \<and> parseConfig (env(''PASSING_PERCENT'' \<mapsto> ''100'')) = Inr cfg100
         \<longrightarrow> passInt conv cfg0 = passInt conv cfg100)
   \<and> (Atoi s = Some 0 \<and> HasPrefix (Getenv env ''CHECK_URL'') ''http''
        \<and> (\<forall>k \<in> {''COUNT'', ''SECONDS'', ''EXPECTED_STATUS_CODE''}.
              Getenv env k = [] \<or> Atoi (Getenv env k) \<noteq> None)
        \<longrightarrow> (\<exists>cfg. parseConfig (env(''PASSING_PERCENT'' \<mapsto> s)) = Inr cfg
                   \<and> PassingPercent cfg = 100))
   \<and> (Atoi s = Some 0 \<and> HasPrefix (Getenv env ''CHECK_URL'') ''http''
        \<and> (\<forall>k \<in> {''COUNT'', ''SECONDS'', ''PASSING_PERCENT''}.
              Getenv env k = [] \<or> Atoi (Getenv env k) \<noteq> None)
        \<longrightarrow> (\<exists>cfg. parseConfig (env(''EXPECTED_STATUS_CODE'' \<mapsto> s)) = Inr cfg
                   \<and> ExpectedStatusCode cfg = 200))"
proof -
  have a: "Atoi s = Some 0 \<longrightarrow>
      parseConfig (env(''PASSING_PERCENT'' \<mapsto> s))
        = parseConfig (env(''PASSING_PERCENT'' \<mapsto> ''100''))"
    by (simp add: parseConfig_PASSING_PERCENT_zero)
  have b: "Atoi s = Some 0 \<longrightarrow>
      parseConfig (env(''EXPECTED_STATUS_CODE'' \<mapsto> s))
        = parseConfig (env(''EXPECTED_STATUS_CODE'' \<mapsto> ''200''))"
    by (simp add: parseConfig_EXPECTED_STATUS_CODE_zero)
  have c: "\<forall>cfg v. parseConfig env = Inr cfg \<and> Atoi (Getenv env ''PASSING_PERCENT'') = Some v
         \<longrightarrow> PassingPercent cfg = (if v = 0 then 100 else v)"
    using parseConfig_Inr_fields(3) [of env] by (simp add: defaultPassingPercent_def)
  have d: "\<forall>cfg v. parseConfig env = Inr cfg \<and> Atoi (Getenv env ''EXPECTED_STATUS_CODE'') = Some v
         \<longrightarrow> ExpectedStatusCode cfg = (if v = 0 then 200 else v)"
    using parseConfig_Inr_fields(6) [of env] by (simp add: defaultExpectedStatusCode_def)
  have e: "\<forall>cfg0 cfg100. Atoi s = Some 0
         \<and> parseConfig (env(''PASSING_PERCENT'' \<mapsto> s)) = Inr cfg0
         \<and> parseConfig (env(''PASSING_PERCENT'' \<mapsto> ''100'')) = Inr cfg100
         \<longrightarrow> passInt conv cfg0 = passInt conv cfg100"
    using a by auto
  have f: "Atoi s = Some 0 \<and> HasPrefix (Getenv env ''CHECK_URL'') ''http''
        \<and> (\<forall>k \<in> {''COUNT'', ''SECONDS'', ''EXPECTED_STATUS_CODE''}.
              Getenv env k = [] \<or> Atoi (Getenv env k) \<noteq> None)
        \<longrightarrow> (\<exists>cfg. parseConfig (env(''PASSING_PERCENT'' \<mapsto> s)) = Inr cfg
                   \<and> PassingPercent cfg = 100)"
  proof
    let ?e = "env(''PASSING_PERCENT'' \<mapsto> s)"
    assume h: "Atoi s = Some 0 \<and> HasPrefix (Getenv env ''CHECK_URL'') ''http''
        \<and> (\<forall>k \<in> {''COUNT'', ''SECONDS'', ''EXPECTED_STATUS_CODE''}.
              Getenv env k = [] \<or> Atoi (Getenv env k) \<noteq> None)"
    then have pre: "HasPrefix (Getenv ?e ''CHECK_URL'') ''http''"
      by (simp add: Getenv_upd)
    from h have num: "\<forall>k \<in> {''COUNT'', ''SECONDS'', ''PASSING_PERCENT'', ''EXPECTED_STATUS_CODE''}.
           Getenv ?e k = [] \<or> Atoi (Getenv ?e k) \<noteq> None"
      by (simp add: Getenv_upd)
    from parseConfig_accepts [OF pre num] obtain cfg where p: "parseConfig ?e = Inr cfg" ..
    from parseConfig_Inr_fields(3) [OF p] h have "PassingPercent cfg = 100"
      by (simp add: Getenv_upd defaultPassingPercent_def)
    with p show "\<exists>cfg. parseConfig ?e = Inr cfg \<and> PassingPercent cfg = 100" by blast
  qed
  have g: "Atoi s = Some 0 \<and> HasPrefix (Getenv env ''CHECK_URL'') ''http''
        \<and> (\<forall>k \<in> {''COUNT'', ''SECONDS'', ''PASSING_PERCENT''}.
              Getenv env k = [] \<or> Atoi (Getenv env k) \<noteq> None)
        \<longrightarrow> (\<exists>cfg. parseConfig (env(''EXPECTED_STATUS_CODE'' \<mapsto> s)) = Inr cfg
                   \<and> ExpectedStatusCode cfg = 200)"
  proof
    let ?e = "env(''EXPECTED_STATUS_CODE'' \<mapsto> s)"
    assume h: "Atoi s = Some 0 \<and> HasPrefix (Getenv env ''CHECK_URL'') ''http''
        \<and> (\<forall>k \<in> {''COUNT'', ''SECONDS'', ''PASSING_PERCENT''}.
              Getenv env k = [] \<or> Atoi (Getenv env k) \<noteq> None)"
    then have pre: "HasPrefix (Getenv ?e ''CHECK_URL'') ''http''"
      by (simp add: Getenv_upd)
    from h have num: "\<forall>k \<in> {''COUNT'', ''SECONDS'', ''PASSING_PERCENT'', ''EXPECTED_STATUS_CODE''}.
           Getenv ?e k = [] \<or> Atoi (Getenv ?e k) \<noteq> None"
      by (simp add: Getenv_upd)
    from parseConfig_accepts [OF pre num] obtain cfg where p: "parseConfig ?e = Inr cfg" ..
    from parseConfig_Inr_fields(6) [OF p] h have "ExpectedStatusCode cfg = 200"
      by (simp add: Getenv_upd defaultExpectedStatusCode_def)
    with p show "\<exists>cfg. parseConfig ?e = Inr cfg \<and> ExpectedStatusCode cfg = 200" by blast
  qed
  from a b c d e f g show ?thesis by (intro conjI)
qed

theorem parseConfig_zero_coerced_witness:
  "Atoi ''0'' = Some 0
   \<and> parseConfig [''CHECK_URL'' \<mapsto> ''http://x'', ''PASSING_PERCENT'' \<mapsto> ''0'']
       = Inr \<lparr>CheckURL = ''http://x'', Count = 0, Seconds = 0, PassingPercent = 100,
          RequestType = ''GET'', RequestBody = ''{}'', ExpectedStatusCode = 200\<rparr>
   \<and> parseConfig [''CHECK_URL'' \<mapsto> ''http://x'', ''PASSING_PERCENT'' \<mapsto> ''100'']
       = Inr \<lparr>CheckURL = ''http://x'', Count = 0, Seconds = 0, PassingPercent = 100,
          RequestType = ''GET'', RequestBody = ''{}'', ExpectedStatusCode = 200\<rparr>
   \<and> parseConfig [''CHECK_URL'' \<mapsto> ''http://x'', ''EXPECTED_STATUS_CODE'' \<mapsto> ''0'']
       = Inr \<lparr>CheckURL = ''http://x'', Count = 0, Seconds = 0, PassingPercent = 100,
          RequestType = ''GET'', RequestBody = ''{}'', ExpectedStatusCode = 200\<rparr>
   \<and> parseConfig [''CHECK_URL'' \<mapsto> ''http://x'', ''EXPECTED_STATUS_CODE'' \<mapsto> ''200'']
       = Inr \<lparr>CheckURL = ''http://x'', Count = 0, Seconds = 0, PassingPercent = 100,
          RequestType = ''GET'', RequestBody = ''{}'', ExpectedStatusCode = 200\<rparr>
   \<and> (\<exists>cfg. parseConfig [''CHECK_URL'' \<mapsto> ''http://x'', ''PASSING_PERCENT'' \<mapsto> ''0''] = Inr cfg
          \<and> PassingPercent cfg = 100)
   \<and> (\<exists>cfg. parseConfig [''CHECK_URL'' \<mapsto> ''http://x'', ''EXPECTED_STATUS_CODE'' \<mapsto> ''0''] = Inr cfg
          \<and> ExpectedStatusCode cfg = 200)
   \<and> PassingPercent \<lparr>CheckURL = ''http://x'', Count = 0, Seconds = 0, PassingPercent = 100,
          RequestType = ''GET'', RequestBody = ''{}'', ExpectedStatusCode = 200\<rparr> = (if (0 :: go_int) = 0 then 100 else 0)
   \<and> ExpectedStatusCode \<lparr>CheckURL = ''http://x'', Count = 0, Seconds = 0, PassingPercent = 100,
          RequestType = ''GET'', RequestBody = ''{}'', ExpectedStatusCode = 200\<rparr> = (if (0 :: go_int) = 0 then 200 else 0)"
proof -
  let ?e = "[''CHECK_URL'' \<mapsto> ''http://x'']"
  let ?cfg = "\<lparr>CheckURL = ''http://x'', Count = 0, Seconds = 0, PassingPercent = 100,
          RequestType = ''GET'', RequestBody = ''{}'', ExpectedStatusCode = 200\<rparr>"
  have z: "Atoi ''0'' = Some 0" by (simp add: Atoi_def digit_of_def)
  have p0: "parseConfig (?e(''PASSING_PERCENT'' \<mapsto> ''0'')) = Inr ?cfg"
    by (simp add: parseConfig_def readCheckURL_def parseCount_def parseSeconds_def
      parsePassingPercent_def parseRequestType_def parseRequestBody_def
      parseExpectedStatusCode_def Getenv_def HasPrefix_def default_values
      coercePassingPercent_def coerceExpectedStatusCode_def Atoi_def digit_of_def)
  have s0: "parseConfig (?e(''EXPECTED_STATUS_CODE'' \<mapsto> ''0'')) = Inr ?cfg"
    by (simp add: parseConfig_def readCheckURL_def parseCount_def parseSeconds_def
      parsePassingPercent_def parseRequestType_def parseRequestBody_def
      parseExpectedStatusCode_def Getenv_def HasPrefix_def default_values
      coercePassingPercent_def coerceExpectedStatusCode_def Atoi_def digit_of_def)
  have hyp: "Atoi ''0'' = Some 0 \<and> HasPrefix (Getenv ?e ''CHECK_URL'') ''http''
        \<and> (\<forall>k \<in> {''COUNT'', ''SECONDS'', ''EXPECTED_STATUS_CODE''}.
              Getenv ?e k = [] \<or> Atoi (Getenv ?e k) \<noteq> None)"
    using z by (simp add: Getenv_def HasPrefix_def)
  have hyp': "Atoi ''0'' = Some 0 \<and> HasPrefix (Getenv ?e ''CHECK_URL'') ''http''
        \<and> (\<forall>k \<in> {''COUNT'', ''SECONDS'', ''PASSING_PERCENT''}.
              Getenv ?e k = [] \<or> Atoi (Getenv ?e k) \<noteq> None)"
    using z by (simp add: Getenv_def HasPrefix_def)
  note t = parseConfig_zero_coerced [of "''0''" ?e "\<lambda>x. 0"]
  from t have "Atoi ''0'' = Some 0 \<longrightarrow>
      parseConfig (?e(''PASSING_PERCENT'' \<mapsto> ''0''))
        = parseConfig (?e(''PASSING_PERCENT'' \<mapsto> ''100''))"
    by (rule conjunct1)
  from this z have a: "parseConfig (?e(''PASSING_PERCENT'' \<mapsto> ''0''))
        = parseConfig (?e(''PASSING_PERCENT'' \<mapsto> ''100''))"
    by (rule mp)
  from t have "Atoi ''0'' = Some 0 \<longrightarrow>
      parseConfig (?e(''EXPECTED_STATUS_CODE'' \<mapsto> ''0''))
        = parseConfig (?e(''EXPECTED_STATUS_CODE'' \<mapsto> ''200''))"
    by (elim conjE)
  from this z have b: "parseConfig (?e(''EXPECTED_STATUS_CODE'' \<mapsto> ''0''))
        = parseConfig (?e(''EXPECTED_STATUS_CODE'' \<mapsto> ''200''))"
    by (rule mp)
  from t have "Atoi ''0'' = Some 0 \<and> HasPrefix (Getenv ?e ''CHECK_URL'') ''http''
        \<and> (\<forall>k \<in> {''COUNT'', ''SECONDS'', ''EXPECTED_STATUS_CODE''}.
              Getenv ?e k = [] \<or> Atoi (Getenv ?e k) \<noteq> None)
        \<longrightarrow> (\<exists>cfg. parseConfig (?e(''PASSING_PERCENT'' \<mapsto> ''0'')) = Inr cfg
                   \<and> PassingPercent cfg = 100)"
    by (elim conjE)
  from this hyp have f: "\<exists>cfg. parseConfig (?e(''PASSING_PERCENT'' \<mapsto> ''0'')) = Inr cfg
                   \<and> PassingPercent cfg = 100"
    by (rule mp)
  from t have "Atoi ''0'' = Some 0 \<and> HasPrefix (Getenv ?e ''CHECK_URL'') ''http''
        \<and> (\<forall>k \<in> {''COUNT'', ''SECONDS'', ''PASSING_PERCENT''}.
              Getenv ?e k = [] \<or> Atoi (Getenv ?e k) \<noteq> None)
        \<longrightarrow> (\<exists>cfg. parseConfig (?e(''EXPECTED_STATUS_CODE'' \<mapsto> ''0'')) = Inr cfg
                   \<and> ExpectedStatusCode cfg = 200)"
    by (elim conjE)
  from this hyp' have g: "\<exists>cfg. parseConfig (?e(''EXPECTED_STATUS_CODE'' \<mapsto> ''0'')) = Inr cfg
                   \<and> ExpectedStatusCode cfg = 200"
    by (rule mp)
  note t0 = parseConfig_zero_coerced [of "''0''" "?e(''PASSING_PERCENT'' \<mapsto> ''0'')" "\<lambda>x. 0"]
  from t0 have "\<forall>cfg v. parseConfig (?e(''PASSING_PERCENT'' \<mapsto> ''0'')) = Inr cfg
         \<and> Atoi (Getenv (?e(''PASSING_PERCENT'' \<mapsto> ''0'')) ''PASSING_PERCENT'') = Some v
         \<longrightarrow> PassingPercent cfg = (if v = 0 then 100 else v)"
    by (elim conjE)
  moreover have "Atoi (Getenv (?e(''PASSING_PERCENT'' \<mapsto> ''0'')) ''PASSING_PERCENT'') = Some 0"
    using z by (simp add: Getenv_def)
  ultimately have c: "PassingPercent ?cfg = (if (0 :: go_int) = 0 then 100 else 0)"
    using p0 by blast
  note t1 = parseConfig_zero_coerced [of "''0''" "?e(''EXPECTED_STATUS_CODE'' \<mapsto> ''0'')" "\<lambda>x. 0"]
  from t1 have "\<forall>cfg v. parseConfig (?e(''EXPECTED_STATUS_CODE'' \<mapsto> ''0'')) = Inr cfg
         \<and> Atoi (Getenv (?e(''EXPECTED_STATUS_CODE'' \<mapsto> ''0'')) ''EXPECTED_STATUS_CODE'') = Some v
         \<longrightarrow> ExpectedStatusCode cfg = (if v = 0 then 200 else v)"
    by (elim conjE)
  moreover have "Atoi (Getenv (?e(''EXPECTED_STATUS_CODE'' \<mapsto> ''0'')) ''EXPECTED_STATUS_CODE'') = Some 0"
    using z by (simp add: Getenv_def)
  ultimately have d: "ExpectedStatusCode ?cfg = (if (0 :: go_int) = 0 then 200 else 0)"
    using s0 by blast
  have p100: "parseConfig (?e(''PASSING_PERCENT'' \<mapsto> ''100'')) = Inr ?cfg"
    using a p0 by simp
  have s200: "parseConfig (?e(''EXPECTED_STATUS_CODE'' \<mapsto> ''200'')) = Inr ?cfg"
    using b s0 by simp
  from z p0 p100 s0 s200 f g c d show ?thesis by (intro conjI)
qed

text \<open>
  Claim C4. \<open>parseConfig\<close> fails when \<^verbatim>\<open>CHECK_URL\<close> is unset or empty, and fails when it
  does not start with \<^verbatim>\<open>http\<close>. When it starts with \<^verbatim>\<open>http\<close> neither of these two errors
  is returned, an accepted configuration holds the URL unchanged, and the configuration is
  accepted whenever each numeric variable is unset, empty or an integer.
\<close>

theorem parseConfig_check_url:
  "(env ''CHECK_URL'' = None \<or> env ''CHECK_URL'' = Some [] \<longrightarrow>
      parseConfig env = Inl EmptyCheckURL)
   \<and> (\<forall>u. env ''CHECK_URL'' = Some u \<and> u \<noteq> [] \<and> \<not> HasPrefix u ''http'' \<longrightarrow>
          parseConfig env = Inl UnsupportedProtocol)
   \<and> (\<forall>u. env ''CHECK_URL'' = Some u \<and> HasPrefix u ''http'' \<longrightarrow>
          parseConfig env \<noteq> Inl EmptyCheckURL \<and> parseConfig env \<noteq> Inl UnsupportedProtocol
          \<and> (\<forall>cfg. parseConfig env = Inr cfg \<longrightarrow> CheckURL cfg = u)
          \<and> ((\<forall>k \<in> {''COUNT'', ''SECONDS'', ''PASSING_PERCENT'', ''EXPECTED_STATUS_CODE''}.
                 Getenv env k = [] \<or> Atoi (Getenv env k) \<noteq> None)
               \<longrightarrow> (\<exists>cfg. parseConfig env = Inr cfg \<and> CheckURL cfg = u)))"
proof (intro conjI allI impI)
  assume "env ''CHECK_URL'' = None \<or> env ''CHECK_URL'' = Some []"
  then have "Getenv env ''CHECK_URL'' = []" by (auto simp: Getenv_def)
  then show "parseConfig env = Inl EmptyCheckURL" by (rule parseConfig_empty_url)
next
  fix u assume "env ''CHECK_URL'' = Some u \<and> u \<noteq> [] \<and> \<not> HasPrefix u ''http''"
  then have "Getenv env ''CHECK_URL'' \<noteq> []" "\<not> HasPrefix (Getenv env ''CHECK_URL'') ''http''"
    by (simp_all add: Getenv_def)
  then show "parseConfig env = Inl UnsupportedProtocol" by (rule parseConfig_bad_prefix)
next
  fix u assume a: "env ''CHECK_URL'' = Some u \<and> HasPrefix u ''http''"
  then have g: "Getenv env ''CHECK_URL'' = u" by (simp add: Getenv_def)
  with a have pre: "HasPrefix (Getenv env ''CHECK_URL'') ''http''" by simp
  show "parseConfig env \<noteq> Inl EmptyCheckURL" by (rule parseConfig_prefix_errors(1) [OF pre])
  show "parseConfig env \<noteq> Inl UnsupportedProtocol" by (rule parseConfig_prefix_errors(2) [OF pre])
  { fix cfg assume "parseConfig env = Inr cfg"
    then show "CheckURL cfg = u" using g by (simp add: parseConfig_Inr_CheckURL) }
  { assume "\<forall>k \<in> {''COUNT'', ''SECONDS'', ''PASSING_PERCENT'', ''EXPECTED_STATUS_CODE''}.
                 Getenv env k = [] \<or> Atoi (Getenv env k) \<noteq> None"
    from parseConfig_accepts [OF pre this] obtain cfg where "parseConfig env = Inr cfg" ..
    then show "\<exists>cfg. parseConfig env = Inr cfg \<and> CheckURL cfg = u"
      using g by (auto simp: parseConfig_Inr_CheckURL) }
qed

theorem parseConfig_check_url_witness:
  "parseConfig Map.empty = Inl EmptyCheckURL
   \<and> parseConfig [''CHECK_URL'' \<mapsto> []] = Inl EmptyCheckURL
   \<and> parseConfig [''CHECK_URL'' \<mapsto> ''ftp://x''] = Inl UnsupportedProtocol
   \<and> (\<exists>cfg. parseConfig [''CHECK_URL'' \<mapsto> ''http://x''] = Inr cfg \<and> CheckURL cfg = ''http://x'')"
  using parseConfig_check_url [of Map.empty] parseConfig_check_url [of "[''CHECK_URL'' \<mapsto> []]"]
    parseConfig_check_url [of "[''CHECK_URL'' \<mapsto> ''ftp://x'']"] parseConfig_check_url [of "[''CHECK_URL'' \<mapsto> ''http://x'']"]
  by (simp add: HasPrefix_def Getenv_def)

text \<open>
  Claim C10. For every variable, a value that is present and empty gives the result that
  the unset variable gives. For the six optional variables the accepted configuration then
  holds the default (\<^verbatim>\<open>COUNT\<close> 0, \<^verbatim>\<open>SECONDS\<close> 0, \<^verbatim>\<open>PASSING_PERCENT\<close> 100,
  \<^verbatim>\<open>REQUEST_TYPE\<close> GET, \<^verbatim>\<open>REQUEST_BODY\<close> \<^verbatim>\<open>{}\<close>, \<^verbatim>\<open>EXPECTED_STATUS_CODE\<close> 200), and no
  conversion error is raised for the empty numeric variable.
\<close>

theorem parseConfig_empty_value_unset:
  "parseConfig (env(k \<mapsto> [])) = parseConfig (env(k := None))
   \<and> (\<forall>cfg. parseConfig (env(''COUNT'' \<mapsto> [])) = Inr cfg \<longrightarrow> Count cfg = defaultCount)
   \<and> (\<forall>cfg. parseConfig (env(''SECONDS'' \<mapsto> [])) = Inr cfg \<longrightarrow> Seconds cfg = defaultSeconds)
   \<and> (\<forall>cfg. parseConfig (env(''PASSING_PERCENT'' \<mapsto> [])) = Inr cfg
         \<longrightarrow> PassingPercent cfg = defaultPassingPercent)
   \<and> (\<forall>cfg. parseConfig (env(''REQUEST_TYPE'' \<mapsto> [])) = Inr cfg
         \<longrightarrow> RequestType cfg = defaultRequestType)
   \<and> (\<forall>cfg. parseConfig (env(''REQUEST_BODY'' \<mapsto> [])) = Inr cfg
         \<longrightarrow> RequestBody cfg = defaultRequestBody)
   \<and> (\<forall>cfg. parseConfig (env(''EXPECTED_STATUS_CODE'' \<mapsto> [])) = Inr cfg
         \<longrightarrow> ExpectedStatusCode cfg = defaultExpectedStatusCode)
   \<and> (\<forall>k' \<in> {''COUNT'', ''SECONDS'', ''PASSING_PERCENT'', ''EXPECTED_STATUS_CODE''}.
         parseConfig (env(k' \<mapsto> [])) \<noteq> Inl (ConvertError k'))"
proof (intro conjI allI impI ballI)
  show "parseConfig (env(k \<mapsto> [])) = parseConfig (env(k := None))"
    by (rule parseConfig_Getenv_cong) (rule Getenv_empty_unset)
next
  fix cfg assume "parseConfig (env(''COUNT'' \<mapsto> [])) = Inr cfg"
  from parseConfig_Inr_fields(1) [OF this] show "Count cfg = defaultCount"
    by (simp add: Getenv_upd Atoi_def)
next
  fix cfg assume "parseConfig (env(''SECONDS'' \<mapsto> [])) = Inr cfg"
  from parseConfig_Inr_fields(2) [OF this] show "Seconds cfg = defaultSeconds"
    by (simp add: Getenv_upd Atoi_def)
next
  fix cfg assume "parseConfig (env(''PASSING_PERCENT'' \<mapsto> [])) = Inr cfg"
  from parseConfig_Inr_fields(3) [OF this] show "PassingPercent cfg = defaultPassingPercent"
    by (simp add: Getenv_upd Atoi_def)
next
  fix cfg assume "parseConfig (env(''REQUEST_TYPE'' \<mapsto> [])) = Inr cfg"
  from parseConfig_Inr_fields(4) [OF this] show "RequestType cfg = defaultRequestType"
    by (simp add: Getenv_upd)
next
  fix cfg assume "parseConfig (env(''REQUEST_BODY'' \<mapsto> [])) = Inr cfg"
  from parseConfig_Inr_fields(5) [OF this] show "RequestBody cfg = defaultRequestBody"
    by (simp add: Getenv_upd)
next
  fix cfg assume "parseConfig (env(''EXPECTED_STATUS_CODE'' \<mapsto> [])) = Inr cfg"
  from parseConfig_Inr_fields(6) [OF this]
  show "ExpectedStatusCode cfg = defaultExpectedStatusCode"
    by (simp add: Getenv_upd Atoi_def)
next
  fix k' assume k': "k' \<in> {''COUNT'', ''SECONDS'', ''PASSING_PERCENT'', ''EXPECTED_STATUS_CODE''}"
  show "parseConfig (env(k' \<mapsto> [])) \<noteq> Inl (ConvertError k')"
  proof
    assume "parseConfig (env(k' \<mapsto> [])) = Inl (ConvertError k')"
    from parseConfig_Inl_cases [OF this] show False
      using k' by (auto simp: readCheckURL_Inl Getenv_upd)
  qed
qed

theorem parseConfig_empty_value_unset_witness:
  "parseConfig [''CHECK_URL'' \<mapsto> ''http://x'', ''COUNT'' \<mapsto> []]
     = parseConfig [''CHECK_URL'' \<mapsto> ''http://x'']
   \<and> (\<exists>cfg. parseConfig [''CHECK_URL'' \<mapsto> ''http://x'', ''COUNT'' \<mapsto> []] = Inr cfg
          \<and> Count cfg = 0)
   \<and> (\<exists>cfg. parseConfig [''CHECK_URL'' \<mapsto> ''http://x'', ''REQUEST_BODY'' \<mapsto> []] = Inr cfg
          \<and> RequestBody cfg = ''{}'')"
proof -
  let ?e = "[''CHECK_URL'' \<mapsto> ''http://x'']"
  let ?d = "\<lparr>CheckURL = ''http://x'', Count = 0, Seconds = 0, PassingPercent = 100,
            RequestType = ''GET'', RequestBody = ''{}'', ExpectedStatusCode = 200\<rparr>"
  have ev1: "parseConfig (?e(''COUNT'' \<mapsto> [])) = Inr ?d"
    by (simp add: parseConfig_def readCheckURL_def parseCount_def parseSeconds_def
      parsePassingPercent_def parseRequestType_def parseRequestBody_def
      parseExpectedStatusCode_def Getenv_def HasPrefix_def default_values
      coercePassingPercent_def coerceExpectedStatusCode_def)
  have ev2: "parseConfig (?e(''REQUEST_BODY'' \<mapsto> [])) = Inr ?d"
    by (simp add: parseConfig_def readCheckURL_def parseCount_def parseSeconds_def
      parsePassingPercent_def parseRequestType_def parseRequestBody_def
      parseExpectedStatusCode_def Getenv_def HasPrefix_def default_values
      coercePassingPercent_def coerceExpectedStatusCode_def)
  have un: "?e(''COUNT'' := None) = ?e"
    by (rule ext) simp
  note t = parseConfig_empty_value_unset [of ?e "''COUNT''"]
  from t have a: "parseConfig (?e(''COUNT'' \<mapsto> [])) = parseConfig (?e(''COUNT'' := None))"
    by (rule conjunct1)
  from t ev1 have b: "Count ?d = defaultCount" by blast
  from t ev2 have c: "RequestBody ?d = defaultRequestBody" by blast
  have a': "parseConfig (?e(''COUNT'' \<mapsto> [])) = parseConfig ?e"
    using a unfolding un .
  have b': "parseConfig (?e(''COUNT'' \<mapsto> [])) = Inr ?d \<and> Count ?d = 0"
    using ev1 b by (simp add: defaultCount_def)
  have c': "parseConfig (?e(''REQUEST_BODY'' \<mapsto> [])) = Inr ?d \<and> RequestBody ?d = ''{}''"
    using ev2 c by (simp add: defaultRequestBody_def)
  from a' b' c' show ?thesis by blast
qed

section \<open>Properties of the dispatcher\<close>

lemmas methods = MethodGet_def MethodPost_def MethodPut_def MethodDelete_def MethodPatch_def

text \<open>The requests of a call begin with its own request, and there are at most ten.\<close>

lemma send_following_wire:
  "\<exists>rest. snd (send_following srv (Suc n) ireq via req) = via @ req # rest \<and> length rest \<le> n"
proof (induction n arbitrary: via req)
  case 0
  show ?case by (simp split: sum.splits option.splits)
next
  case (Suc n)
  show ?case
  proof (cases "srv req")
    case (Inl err)
    then show ?thesis by simp
  next
    case (Inr reply)
    show ?thesis
    proof (cases "redirect_to ireq req reply")
      case None
      with Inr show ?thesis by simp
    next
      case (Some nxt)
      from Suc.IH [of "via @ [req]" nxt] obtain rest where
        "snd (send_following srv (Suc n) ireq (via @ [req]) nxt) = (via @ [req]) @ nxt # rest"
        and "length rest \<le> n"
        by blast
      with Inr Some have "snd (send_following srv (Suc (Suc n)) ireq via req) = via @ req # nxt # rest
          \<and> length (nxt # rest) \<le> Suc n"
        by simp
      then show ?thesis by blast
    qed
  qed
qed

lemma send_following_numeral:
  "send_following srv (numeral k) ireq via req =
     (case srv req of
        Inl err \<Rightarrow> (Inl err, via @ [req])
      | Inr reply \<Rightarrow>
          (case redirect_to ireq req reply of
             None \<Rightarrow> (Inr \<lparr>StatusCode = reply_status reply\<rparr>, via @ [req])
           | Some next \<Rightarrow> send_following srv (pred_numeral k) ireq (via @ [req]) next))"
  by (simp only: numeral_eq_Suc send_following.simps)

lemma DefaultClient_Do_wire:
  "\<exists>rest. snd (DefaultClient_Do srv req) = req # rest \<and> length rest < 10"
proof -
  have "(10 :: nat) = Suc 9" by simp
  then have "DefaultClient_Do srv req = send_following srv (Suc 9) req [] req"
    by (simp only: DefaultClient_Do_def)
  with send_following_wire [of srv 9 req "[]" req] show ?thesis by auto
qed

lemma DefaultClient_Do_no_redirect:
  assumes "srv req = Inr reply" and "redirect_to req req reply = None"
  shows "DefaultClient_Do srv req = (Inr \<lparr>StatusCode = reply_status reply\<rparr>, [req])"
proof -
  show ?thesis
    using assms by (simp add: DefaultClient_Do_def send_following_numeral)
qed

text \<open>
  Claim C5, as stated, fails on the wire: against a server that redirects with 302, one
  \<open>callAPI\<close> with POST makes one call to the client, and the client sends two requests,
  the POST with the body and then a GET without a body; one \<open>callAPI\<close> with GET sends two
  GETs.
\<close>

theorem callAPI_redirect_counterexample:
  "callAPI (client_world redirecting_server)
      \<lparr>URL = \<lparr>url_String = ''http://x'', url_Redacted = ''http://x''\<rparr>, Type = ''POST'', Body = ''{}''\<rparr> []
     = (Inr \<lparr>StatusCode = 200\<rparr>,
        [Net (ClientDo \<lparr>Method = ''POST'', ReqURL = ''http://x'', ReqBody = ''{}''\<rparr>)])
   \<and> snd (DefaultClient_Do redirecting_server
            (wire_request (ClientDo \<lparr>Method = ''POST'', ReqURL = ''http://x'', ReqBody = ''{}''\<rparr>)))
     = [\<lparr>wire_method = ''POST'', wire_url = ''http://x'', wire_body = Some ''{}''\<rparr>,
        \<lparr>wire_method = ''GET'', wire_url = ''http://y'', wire_body = None\<rparr>]
   \<and> callAPI (client_world redirecting_server)
      \<lparr>URL = \<lparr>url_String = ''http://x'', url_Redacted = ''http://x''\<rparr>, Type = ''GET'', Body = ''{}''\<rparr> []
     = (Inr \<lparr>StatusCode = 200\<rparr>, [Net (HttpGet ''http://x'')])
   \<and> snd (DefaultClient_Do redirecting_server (wire_request (HttpGet ''http://x'')))
     = [\<lparr>wire_method = ''GET'', wire_url = ''http://x'', wire_body = None\<rparr>,
        \<lparr>wire_method = ''GET'', wire_url = ''http://y'', wire_body = None\<rparr>]"
proof -
  have p: "DefaultClient_Do redirecting_server
            \<lparr>wire_method = ''POST'', wire_url = ''http://x'', wire_body = Some ''{}''\<rparr>
     = (Inr \<lparr>StatusCode = 200\<rparr>,
        [\<lparr>wire_method = ''POST'', wire_url = ''http://x'', wire_body = Some ''{}''\<rparr>,
         \<lparr>wire_method = ''GET'', wire_url = ''http://y'', wire_body = None\<rparr>])"
    by (simp add: DefaultClient_Do_def send_following_numeral redirecting_server_def
        redirect_to_def)
  have g: "DefaultClient_Do redirecting_server
            \<lparr>wire_method = ''GET'', wire_url = ''http://x'', wire_body = None\<rparr>
     = (Inr \<lparr>StatusCode = 200\<rparr>,
        [\<lparr>wire_method = ''GET'', wire_url = ''http://x'', wire_body = None\<rparr>,
         \<lparr>wire_method = ''GET'', wire_url = ''http://y'', wire_body = None\<rparr>])"
    by (simp add: DefaultClient_Do_def send_following_numeral redirecting_server_def
        redirect_to_def)
  show ?thesis
    by (simp add: callAPI_def NewRequest_def client_world_def wire_request_def methods p g)
qed

text \<open>
  Claim C5, amended. For a method other than GET, POST, PUT, DELETE and PATCH (\<^verbatim>\<open>HEAD\<close>,
  say), \<open>callAPI\<close> returns the error "wrong request type found" and the trace is
  unchanged: no call to the client is made, whatever the environment. For GET it makes
  exactly one call to the client, \<^verbatim>\<open>http.Get\<close> of the URL, and the body plays no part.
  For POST, PUT, DELETE and PATCH it makes exactly one call to the client, \<^verbatim>\<open>Do\<close> of the
  request with that method, the URL and the body, once \<^verbatim>\<open>http.NewRequest\<close> has built the
  request; if \<^verbatim>\<open>http.NewRequest\<close> rejects it, the error is returned and no call is made.
  On the wire, the first request of a call is the request of the call, the client sends
  at most ten requests for it, and exactly one when the server answers without a
  redirect or the transport fails.
\<close>

theorem callAPI_dispatch:
  "(Type r \<notin> {MethodGet, MethodPost, MethodPut, MethodDelete, MethodPatch} \<longrightarrow>
      callAPI w r tr = (Inl (WrongRequestType (url_Redacted (URL r))), tr))
   \<and> (Type r = MethodGet \<longrightarrow>
        snd (callAPI w r tr) = tr @ [Net (HttpGet (url_String (URL r)))]
        \<and> callAPI w (r\<lparr>Body := b\<rparr>) tr = callAPI w r tr)
   \<and> (Type r \<in> {MethodPost, MethodPut, MethodDelete, MethodPatch}
        \<and> newRequestError w (Type r) (url_String (URL r)) = None \<longrightarrow>
        snd (callAPI w r tr)
          = tr @ [Net (ClientDo \<lparr>Method = Type r, ReqURL = url_String (URL r), ReqBody = Body r\<rparr>)])
   \<and> (\<forall>err. Type r \<in> {MethodPost, MethodPut, MethodDelete, MethodPatch}
        \<and> newRequestError w (Type r) (url_String (URL r)) = Some err \<longrightarrow>
        callAPI w r tr = (Inl (CallError (url_Redacted (URL r)) err), tr))
   \<and> roundTrip (client_world srv) tr call = fst (DefaultClient_Do srv (wire_request call))
   \<and> (\<exists>rest. snd (DefaultClient_Do srv (wire_request call)) = wire_request call # rest
                \<and> length rest < 10)
   \<and> (\<forall>reply. srv (wire_request call) = Inr reply
         \<and> redirect_to (wire_request call) (wire_request call) reply = None \<longrightarrow>
         DefaultClient_Do srv (wire_request call)
           = (Inr \<lparr>StatusCode = reply_status reply\<rparr>, [wire_request call]))
   \<and> (\<forall>err. srv (wire_request call) = Inl err \<longrightarrow>
         DefaultClient_Do srv (wire_request call) = (Inl err, [wire_request call]))"
proof (intro conjI impI allI)
  assume "Type r \<notin> {MethodGet, MethodPost, MethodPut, MethodDelete, MethodPatch}"
  then show "callAPI w r tr = (Inl (WrongRequestType (url_Redacted (URL r))), tr)"
    by (simp add: callAPI_def)
next
  assume g: "Type r = MethodGet"
  then show "snd (callAPI w r tr) = tr @ [Net (HttpGet (url_String (URL r)))]"
    by (simp add: callAPI_def Let_def split: sum.splits)
  from g show "callAPI w (r\<lparr>Body := b\<rparr>) tr = callAPI w r tr"
    by (simp add: callAPI_def Let_def split: sum.splits)
next
  assume a: "Type r \<in> {MethodPost, MethodPut, MethodDelete, MethodPatch}
        \<and> newRequestError w (Type r) (url_String (URL r)) = None"
  then have ng: "Type r \<noteq> MethodGet" by (auto simp: methods)
  from a ng show "snd (callAPI w r tr)
          = tr @ [Net (ClientDo \<lparr>Method = Type r, ReqURL = url_String (URL r), ReqBody = Body r\<rparr>)]"
    by (auto simp: callAPI_def NewRequest_def split: sum.splits)
next
  fix err
  assume a: "Type r \<in> {MethodPost, MethodPut, MethodDelete, MethodPatch}
        \<and> newRequestError w (Type r) (url_String (URL r)) = Some err"
  then have ng: "Type r \<noteq> MethodGet" by (auto simp: methods)
  from a ng show "callAPI w r tr = (Inl (CallError (url_Redacted (URL r)) err), tr)"
    by (auto simp: callAPI_def NewRequest_def)
next
  show "roundTrip (client_world srv) tr call = fst (DefaultClient_Do srv (wire_request call))"
    by (simp add: client_world_def)
  show "\<exists>rest. snd (DefaultClient_Do srv (wire_request call)) = wire_request call # rest
                \<and> length rest < 10"
    by (rule DefaultClient_Do_wire)
next
  fix reply
  assume "srv (wire_request call) = Inr reply
         \<and> redirect_to (wire_request call) (wire_request call) reply = None"
  then show "DefaultClient_Do srv (wire_request call)
           = (Inr \<lparr>StatusCode = reply_status reply\<rparr>, [wire_request call])"
    by (simp add: DefaultClient_Do_no_redirect)
next
  fix err
  assume e: "srv (wire_request call) = Inl err"
  then show "DefaultClient_Do srv (wire_request call) = (Inl err, [wire_request call])"
    by (simp add: DefaultClient_Do_def send_following_numeral)
qed

theorem callAPI_dispatch_witness:
  "callAPI \<lparr>newRequestError = (\<lambda>m u. None), roundTrip = (\<lambda>tr c. Inr \<lparr>StatusCode = 200\<rparr>),
         url_Parse = (\<lambda>s. Inr \<lparr>url_String = s, url_Redacted = s\<rparr>)\<rparr>
     \<lparr>URL = \<lparr>url_String = ''http://x'', url_Redacted = ''http://x''\<rparr>, Type = ''HEAD'', Body = ''{}''\<rparr> []
     = (Inl (WrongRequestType ''http://x''), [])
   \<and> snd (callAPI \<lparr>newRequestError = (\<lambda>m u. None), roundTrip = (\<lambda>tr c. Inr \<lparr>StatusCode = 200\<rparr>),
         url_Parse = (\<lambda>s. Inr \<lparr>url_String = s, url_Redacted = s\<rparr>)\<rparr>
     \<lparr>URL = \<lparr>url_String = ''http://x'', url_Redacted = ''http://x''\<rparr>, Type = ''GET'', Body = ''{}''\<rparr> [])
     = [Net (HttpGet ''http://x'')]
   \<and> snd (callAPI \<lparr>newRequestError = (\<lambda>m u. None), roundTrip = (\<lambda>tr c. Inr \<lparr>StatusCode = 200\<rparr>),
         url_Parse = (\<lambda>s. Inr \<lparr>url_String = s, url_Redacted = s\<rparr>)\<rparr>
     \<lparr>URL = \<lparr>url_String = ''http://x'', url_Redacted = ''http://x''\<rparr>, Type = ''POST'', Body = ''{}''\<rparr> [])
     = [Net (ClientDo \<lparr>Method = ''POST'', ReqURL = ''http://x'', ReqBody = ''{}''\<rparr>)]
   \<and> DefaultClient_Do redirecting_server (wire_request (HttpGet ''http://y''))
     = (Inr \<lparr>StatusCode = 200\<rparr>, [wire_request (HttpGet ''http://y'')])"
proof -
  let ?w = "\<lparr>newRequestError = (\<lambda>m u. None), roundTrip = (\<lambda>tr c. Inr \<lparr>StatusCode = 200\<rparr>),
         url_Parse = (\<lambda>s. Inr \<lparr>url_String = s, url_Redacted = s\<rparr>)\<rparr>"
  note h = callAPI_dispatch [of "\<lparr>URL = \<lparr>url_String = ''http://x'', url_Redacted = ''http://x''\<rparr>, Type = ''HEAD'', Body = ''{}''\<rparr>" ?w "[]"]
  note g = callAPI_dispatch [of "\<lparr>URL = \<lparr>url_String = ''http://x'', url_Redacted = ''http://x''\<rparr>, Type = ''GET'', Body = ''{}''\<rparr>" ?w "[]"]
  note p = callAPI_dispatch [of "\<lparr>URL = \<lparr>url_String = ''http://x'', url_Redacted = ''http://x''\<rparr>, Type = ''POST'', Body = ''{}''\<rparr>" ?w "[]"]
  from h have a: "callAPI ?w \<lparr>URL = \<lparr>url_String = ''http://x'', url_Redacted = ''http://x''\<rparr>, Type = ''HEAD'', Body = ''{}''\<rparr> []
     = (Inl (WrongRequestType ''http://x''), [])"
    by (simp add: methods)
  from g have b: "snd (callAPI ?w \<lparr>URL = \<lparr>url_String = ''http://x'', url_Redacted = ''http://x''\<rparr>, Type = ''GET'', Body = ''{}''\<rparr> [])
     = [Net (HttpGet ''http://x'')]"
    by (simp add: methods)
  from p have c: "snd (callAPI ?w \<lparr>URL = \<lparr>url_String = ''http://x'', url_Redacted = ''http://x''\<rparr>, Type = ''POST'', Body = ''{}''\<rparr> [])
     = [Net (ClientDo \<lparr>Method = ''POST'', ReqURL = ''http://x'', ReqBody = ''{}''\<rparr>)]"
    by (simp add: methods)
  have s: "redirecting_server (wire_request (HttpGet ''http://y''))
        = Inr \<lparr>reply_status = 200, reply_location = None\<rparr>
      \<and> redirect_to (wire_request (HttpGet ''http://y'')) (wire_request (HttpGet ''http://y''))
           \<lparr>reply_status = 200, reply_location = None\<rparr> = None"
    by (simp add: redirecting_server_def wire_request_def redirect_to_def)
  from callAPI_dispatch [of "\<lparr>URL = \<lparr>url_String = ''http://x'', url_Redacted = ''http://x''\<rparr>, Type = ''GET'', Body = ''{}''\<rparr>" ?w "[]" "''{}''" redirecting_server "HttpGet ''http://y''"]
  have "\<forall>reply. redirecting_server (wire_request (HttpGet ''http://y'')) = Inr reply
         \<and> redirect_to (wire_request (HttpGet ''http://y'')) (wire_request (HttpGet ''http://y'')) reply = None \<longrightarrow>
         DefaultClient_Do redirecting_server (wire_request (HttpGet ''http://y''))
           = (Inr \<lparr>StatusCode = reply_status reply\<rparr>, [wire_request (HttpGet ''http://y'')])"
    by (elim conjE)
  with s have d: "DefaultClient_Do redirecting_server (wire_request (HttpGet ''http://y''))
     = (Inr \<lparr>StatusCode = reply_status \<lparr>reply_status = 200, reply_location = None\<rparr>\<rparr>,
        [wire_request (HttpGet ''http://y'')])"
    by blast
  then have d': "DefaultClient_Do redirecting_server (wire_request (HttpGet ''http://y''))
     = (Inr \<lparr>StatusCode = 200\<rparr>, [wire_request (HttpGet ''http://y'')])"
    by simp
  from a b c d' show ?thesis by (intro conjI)
qed

section \<open>Properties of the check loop\<close>

lemma sint_succ:
  fixes x c :: go_int
  assumes "sint x < sint c"
  shows "sint (x + 1) = sint x + 1"
proof -
  have ub: "sint c < 2 ^ 63" using sint_lt [of c] by simp
  have lb: "- (2 ^ 63) \<le> sint x" using sint_ge [of x] by simp
  have "sint (x + 1) = signed_take_bit 63 (sint x + 1)"
    by (simp add: sint_word_ariths)
  also have "\<dots> = sint x + 1"
    using assms ub lb by (intro signed_take_bit_int_eq_self) auto
  finally show ?thesis .
qed

text \<open>What one iteration does to the summary: the check passes or it fails.\<close>

lemma loop_body_summary:
  "fst (loop_body w cfg u tk st) =
     (fst st)\<lparr>ChecksRan := ChecksRan (fst st) + 1, ChecksPassed := ChecksPassed (fst st) + 1\<rparr>
   \<or> fst (loop_body w cfg u tk st) =
     (fst st)\<lparr>ChecksRan := ChecksRan (fst st) + 1, ChecksFailed := ChecksFailed (fst st) + 1\<rparr>"
  by (simp add: loop_body_def Let_def split: prod.splits sum.splits)

lemma loop_body_counters:
  assumes lt: "ChecksRan (fst st) <s Count cfg"
    and p: "0 \<le>s ChecksPassed (fst st)" and f: "0 \<le>s ChecksFailed (fst st)"
    and eq: "sint (ChecksRan (fst st)) = sint (ChecksPassed (fst st)) + sint (ChecksFailed (fst st))"
  shows "0 \<le>s ChecksPassed (fst (loop_body w cfg u tk st))"
    and "0 \<le>s ChecksFailed (fst (loop_body w cfg u tk st))"
    and "sint (ChecksRan (fst (loop_body w cfg u tk st)))
           = sint (ChecksPassed (fst (loop_body w cfg u tk st)))
             + sint (ChecksFailed (fst (loop_body w cfg u tk st)))"
    and "ChecksRan (fst (loop_body w cfg u tk st)) \<le>s Count cfg"
    and "sint (ChecksRan (fst (loop_body w cfg u tk st))) = sint (ChecksRan (fst st)) + 1"
proof -
  let ?s = "fst st" and ?s' = "fst (loop_body w cfg u tk st)"
  have lt': "sint (ChecksRan ?s) < sint (Count cfg)" using lt by (simp add: word_sless_alt)
  have p': "0 \<le> sint (ChecksPassed ?s)" using p by (simp add: word_sle_eq)
  have f': "0 \<le> sint (ChecksFailed ?s)" using f by (simp add: word_sle_eq)
  have r: "sint (ChecksRan ?s + 1) = sint (ChecksRan ?s) + 1" by (rule sint_succ [OF lt'])
  have pp: "sint (ChecksPassed ?s + 1) = sint (ChecksPassed ?s) + 1"
    by (rule sint_succ [of _ "Count cfg"]) (use lt' eq f' in linarith)
  have ff: "sint (ChecksFailed ?s + 1) = sint (ChecksFailed ?s) + 1"
    by (rule sint_succ [of _ "Count cfg"]) (use lt' eq p' in linarith)
  from loop_body_summary [of w cfg u tk st]
  have "(0 \<le> sint (ChecksPassed ?s') \<and> 0 \<le> sint (ChecksFailed ?s'))
      \<and> sint (ChecksRan ?s') = sint (ChecksPassed ?s') + sint (ChecksFailed ?s')
      \<and> sint (ChecksRan ?s') \<le> sint (Count cfg)
      \<and> sint (ChecksRan ?s') = sint (ChecksRan ?s) + 1"
  proof
    assume "?s' = ?s\<lparr>ChecksRan := ChecksRan ?s + 1, ChecksPassed := ChecksPassed ?s + 1\<rparr>"
    then show ?thesis using r pp lt' p' f' eq by simp
  next
    assume "?s' = ?s\<lparr>ChecksRan := ChecksRan ?s + 1, ChecksFailed := ChecksFailed ?s + 1\<rparr>"
    then show ?thesis using r ff lt' p' f' eq by simp
  qed
  then show "0 \<le>s ChecksPassed ?s'" "0 \<le>s ChecksFailed ?s'"
    "sint (ChecksRan ?s') = sint (ChecksPassed ?s') + sint (ChecksFailed ?s')"
    "ChecksRan ?s' \<le>s Count cfg" "sint (ChecksRan ?s') = sint (ChecksRan ?s) + 1"
    by (simp_all add: word_sle_eq)
qed

text \<open>The invariant of the loop, at every state the loop passes through.\<close>

lemma loop_reaches_counters:
  assumes reach: "loop_reaches w cfg u tk st0 st"
    and "0 \<le>s ChecksPassed (fst st0)" and "0 \<le>s ChecksFailed (fst st0)"
    and "sint (ChecksRan (fst st0)) = sint (ChecksPassed (fst st0)) + sint (ChecksFailed (fst st0))"
  shows "0 \<le>s ChecksPassed (fst st) \<and> 0 \<le>s ChecksFailed (fst st)
     \<and> sint (ChecksRan (fst st)) = sint (ChecksPassed (fst st)) + sint (ChecksFailed (fst st))"
  using assms
proof (induction rule: loop_reaches.induct)
  case start
  then show ?case by simp
next
  case (iterate st)
  then have "0 \<le>s ChecksPassed (fst st)" "0 \<le>s ChecksFailed (fst st)"
    "sint (ChecksRan (fst st)) = sint (ChecksPassed (fst st)) + sint (ChecksFailed (fst st))"
    by simp_all
  from loop_body_counters(1-3) [OF iterate.hyps(2) this] show ?case by simp
qed

lemma loop_reaches_le_Count:
  assumes reach: "loop_reaches w cfg u tk st0 st" and "ChecksRan (fst st0) \<le>s Count cfg"
  shows "ChecksRan (fst st) \<le>s Count cfg"
  using assms
proof (induction rule: loop_reaches.induct)
  case start
  then show ?case by simp
next
  case (iterate st)
  have "ChecksRan (fst (loop_body w cfg u tk st)) = ChecksRan (fst st) + 1"
    using loop_body_summary [of w cfg u tk st] by auto
  moreover have "sint (ChecksRan (fst st)) < sint (Count cfg)"
    using iterate.hyps(2) by (simp add: word_sless_alt)
  ultimately show ?case
    using sint_succ [of "ChecksRan (fst st)" "Count cfg"] by (simp add: word_sle_eq)
qed

text \<open>The loop ends in a state it reaches, where its condition is false.\<close>

lemma loop_reaches_loop:
  "loop_reaches w cfg u tk st0 st \<Longrightarrow> loop_reaches w cfg u tk st0 (loop w cfg u tk st)"
proof (induction w cfg u tk st rule: loop.induct)
  case (1 w cfg u tk st)
  show ?case
  proof (cases "ChecksRan (fst st) <s Count cfg")
    case True
    with "1.prems" have "loop_reaches w cfg u tk st0 (loop_body w cfg u tk st)"
      by (rule loop_reaches.iterate)
    from "1.IH" [OF True this] True show ?thesis by (simp add: loop.simps [of w cfg u tk st])
  next
    case False
    with "1.prems" show ?thesis by (simp add: loop.simps [of w cfg u tk st])
  qed
qed

lemma loop_exit: "\<not> ChecksRan (fst (loop w cfg u tk st)) <s Count cfg"
proof (induction w cfg u tk st rule: loop.induct)
  case (1 w cfg u tk st)
  then show ?case by (cases "ChecksRan (fst st) <s Count cfg") (simp_all add: loop.simps [of w cfg u tk st])
qed


lemma runChecks_eq:
  "runChecks w cfg u =
     (if 0 <s Seconds cfg then
        (if Seconds cfg * Second \<le>s 0 then Panic ''non-positive interval for NewTicker''
         else Return
           ((fst (loop w cfg u (Some \<lparr>C = Some (Seconds cfg * Second)\<rparr>)
                   (\<lparr>ChecksRan = 0, ChecksPassed = 0, ChecksFailed = 0\<rparr>,
                    [Infoln [S ''Beginning check.'']])), None),
            snd (loop w cfg u (Some \<lparr>C = Some (Seconds cfg * Second)\<rparr>)
                   (\<lparr>ChecksRan = 0, ChecksPassed = 0, ChecksFailed = 0\<rparr>,
                    [Infoln [S ''Beginning check.'']])) @ [TickerStop]))
      else Return
           ((fst (loop w cfg u None
                   (\<lparr>ChecksRan = 0, ChecksPassed = 0, ChecksFailed = 0\<rparr>,
                    [Infoln [S ''Beginning check.'']])), None),
            snd (loop w cfg u None
                   (\<lparr>ChecksRan = 0, ChecksPassed = 0, ChecksFailed = 0\<rparr>,
                    [Infoln [S ''Beginning check.'']]))))"
  by (simp add: runChecks_def NewTicker_def Let_def split: prod.splits)

lemma runChecks_Return_loop:
  assumes "runChecks w cfg u = Return ((s, e), tr)"
  shows "\<exists>tk. s = fst (loop w cfg u tk (\<lparr>ChecksRan = 0, ChecksPassed = 0, ChecksFailed = 0\<rparr>,
                    [Infoln [S ''Beginning check.'']]))"
  using assms by (auto simp: runChecks_eq split: if_splits)

text \<open>
  Claim C1. At every state the loop of \<open>runChecks\<close> passes through,
  \<open>ChecksRan = ChecksPassed + ChecksFailed\<close> (in Go's \<^verbatim>\<open>int\<close> and as integers, neither
  counter being negative, so nothing wraps around) and, for a configuration whose count is
  not negative, \<open>ChecksRan \<le> Count\<close>. When \<open>runChecks\<close> returns, its summary satisfies
  \<open>ChecksRan = ChecksPassed + ChecksFailed\<close> and, for a configuration whose count is not
  negative, \<open>ChecksRan = Count\<close>.
\<close>

theorem runChecks_counters:
  "(\<forall>st. loop_reaches w cfg u tk (\<lparr>ChecksRan = 0, ChecksPassed = 0, ChecksFailed = 0\<rparr>, tr0) st
       \<longrightarrow> ChecksRan (fst st) = ChecksPassed (fst st) + ChecksFailed (fst st)
         \<and> sint (ChecksRan (fst st)) = sint (ChecksPassed (fst st)) + sint (ChecksFailed (fst st))
         \<and> 0 \<le>s ChecksPassed (fst st) \<and> 0 \<le>s ChecksFailed (fst st)
         \<and> (0 \<le>s Count cfg \<longrightarrow> ChecksRan (fst st) \<le>s Count cfg))
   \<and> (\<forall>s e tr. runChecks w cfg u = Return ((s, e), tr)
       \<longrightarrow> ChecksRan s = ChecksPassed s + ChecksFailed s
         \<and> sint (ChecksRan s) = sint (ChecksPassed s) + sint (ChecksFailed s)
         \<and> 0 \<le>s ChecksPassed s \<and> 0 \<le>s ChecksFailed s
         \<and> (0 \<le>s Count cfg \<longrightarrow> ChecksRan s = Count cfg))"
proof -
  let ?init = "\<lparr>ChecksRan = 0, ChecksPassed = 0, ChecksFailed = 0\<rparr>"
  have inv: "0 \<le>s ChecksPassed (fst st) \<and> 0 \<le>s ChecksFailed (fst st)
     \<and> sint (ChecksRan (fst st)) = sint (ChecksPassed (fst st)) + sint (ChecksFailed (fst st))"
    if "loop_reaches w cfg u tk' (?init, tr') st" for tk' tr' st
    using loop_reaches_counters [OF that] by simp
  have le: "ChecksRan (fst st) \<le>s Count cfg"
    if "loop_reaches w cfg u tk' (?init, tr') st" and "0 \<le>s Count cfg" for tk' tr' st
    using loop_reaches_le_Count [OF that(1)] that(2) by simp
  have weq: "ChecksRan s = ChecksPassed s + ChecksFailed s"
    if "sint (ChecksRan s) = sint (ChecksPassed s) + sint (ChecksFailed s)" for s :: checkSummary
  proof -
    have "word_of_int (sint (ChecksRan s))
        = (word_of_int (sint (ChecksPassed s) + sint (ChecksFailed s)) :: go_int)"
      using that by simp
    then show ?thesis by simp
  qed
  have part1: "\<forall>st. loop_reaches w cfg u tk (?init, tr0) st
       \<longrightarrow> ChecksRan (fst st) = ChecksPassed (fst st) + ChecksFailed (fst st)
         \<and> sint (ChecksRan (fst st)) = sint (ChecksPassed (fst st)) + sint (ChecksFailed (fst st))
         \<and> 0 \<le>s ChecksPassed (fst st) \<and> 0 \<le>s ChecksFailed (fst st)
         \<and> (0 \<le>s Count cfg \<longrightarrow> ChecksRan (fst st) \<le>s Count cfg)"
    using inv le weq by blast
  have part2: "ChecksRan s = ChecksPassed s + ChecksFailed s
         \<and> sint (ChecksRan s) = sint (ChecksPassed s) + sint (ChecksFailed s)
         \<and> 0 \<le>s ChecksPassed s \<and> 0 \<le>s ChecksFailed s
         \<and> (0 \<le>s Count cfg \<longrightarrow> ChecksRan s = Count cfg)"
    if ret: "runChecks w cfg u = Return ((s, e), tr)" for s e tr
  proof -
    let ?st0 = "(?init, [Infoln [S ''Beginning check.'']])"
    from runChecks_Return_loop [OF ret] obtain tk' where s: "s = fst (loop w cfg u tk' ?st0)" ..
    have reach: "loop_reaches w cfg u tk' ?st0 (loop w cfg u tk' ?st0)"
      by (rule loop_reaches_loop) (rule loop_reaches.start)
    from inv [OF reach] have i: "0 \<le>s ChecksPassed s \<and> 0 \<le>s ChecksFailed s
       \<and> sint (ChecksRan s) = sint (ChecksPassed s) + sint (ChecksFailed s)"
      by (simp add: s)
    have c: "ChecksRan s = Count cfg" if nn: "0 \<le>s Count cfg"
    proof -
      from le [OF reach nn] have "ChecksRan s \<le>s Count cfg" by (simp add: s)
      moreover have "\<not> ChecksRan s <s Count cfg" unfolding s by (rule loop_exit)
      ultimately have "sint (ChecksRan s) = sint (Count cfg)"
        by (simp add: word_sle_eq word_sless_alt)
      then have "word_of_int (sint (ChecksRan s)) = (word_of_int (sint (Count cfg)) :: go_int)"
        by simp
      then show ?thesis by simp
    qed
    from i c weq show ?thesis by blast
  qed
  from part1 part2 show ?thesis by blast
qed

text \<open>The events of one iteration: the network call if one is made, the log line of the
  outcome, and the wait on the ticker.\<close>

lemma callAPI_trace:
  "snd (callAPI w r tr) = tr \<or> (\<exists>call. snd (callAPI w r tr) = tr @ [Net call])"
  by (simp add: callAPI_def Let_def split: sum.splits)

lemma loop_body_trace:
  "\<exists>evs lg. snd (loop_body w cfg u tk st) = snd st @ evs @ [lg] @ waitForTicker tk []
     \<and> (evs = [] \<or> (\<exists>call. evs = [Net call]))
     \<and> (lg = Errorln [S ''Failed to reach URL:'', S (url_Redacted u)]
          \<or> (\<exists>code. code \<noteq> ExpectedStatusCode cfg
                \<and> lg = Errorln [S ''Got a'', I code, S ''with a'', S MethodGet, S ''to'',
                                 S (url_Redacted u)])
          \<or> lg = Infoln [S ''Got a'', I (ExpectedStatusCode cfg), S ''with a'', S MethodGet,
                          S ''to'', S (url_Redacted u)])"
proof -
  let ?r = "\<lparr>URL = u, Type = RequestType cfg, Body = RequestBody cfg\<rparr>"
  obtain res tr1 where c: "callAPI w ?r (snd st) = (res, tr1)" by (cases "callAPI w ?r (snd st)")
  from callAPI_trace [of w ?r "snd st"] c
  obtain evs where tr1: "tr1 = snd st @ evs" and evs: "evs = [] \<or> (\<exists>call. evs = [Net call])"
    by auto
  have wt: "waitForTicker tk (xs @ [l]) = xs @ [l] @ waitForTicker tk []" for xs l
    by (simp add: waitForTicker_def split: option.splits)
  show ?thesis
  proof (cases res)
    case (Inl err)
    with c tr1 have "snd (loop_body w cfg u tk st)
        = snd st @ evs @ [Errorln [S ''Failed to reach URL:'', S (url_Redacted u)]] @ waitForTicker tk []"
      by (simp add: loop_body_def Let_def wt)
    with evs show ?thesis by blast
  next
    case (Inr response)
    show ?thesis
    proof (cases "StatusCode response = ExpectedStatusCode cfg")
      case True
      with c tr1 Inr have "snd (loop_body w cfg u tk st)
        = snd st @ evs @ [Infoln [S ''Got a'', I (ExpectedStatusCode cfg), S ''with a'', S MethodGet,
                          S ''to'', S (url_Redacted u)]] @ waitForTicker tk []"
        by (simp add: loop_body_def Let_def wt)
      with evs show ?thesis by blast
    next
      case False
      with c tr1 Inr have "snd (loop_body w cfg u tk st)
        = snd st @ evs @ [Errorln [S ''Got a'', I (StatusCode response), S ''with a'', S MethodGet,
                          S ''to'', S (url_Redacted u)]] @ waitForTicker tk []"
        by (simp add: loop_body_def Let_def wt)
      with evs False show ?thesis by blast
    qed
  qed
qed

lemma loop_trace:
  "\<exists>chunks. snd (loop w cfg u tk st) = snd st @ concat chunks
     \<and> sint (ChecksRan (fst (loop w cfg u tk st))) = sint (ChecksRan (fst st)) + int (length chunks)
     \<and> (\<forall>c \<in> set chunks. \<exists>evs lg. c = evs @ [lg] @ waitForTicker tk []
           \<and> (evs = [] \<or> (\<exists>call. evs = [Net call]))
           \<and> (lg = Errorln [S ''Failed to reach URL:'', S (url_Redacted u)]
                \<or> (\<exists>code. code \<noteq> ExpectedStatusCode cfg
                      \<and> lg = Errorln [S ''Got a'', I code, S ''with a'', S MethodGet, S ''to'',
                                       S (url_Redacted u)])
                \<or> lg = Infoln [S ''Got a'', I (ExpectedStatusCode cfg), S ''with a'', S MethodGet,
                                S ''to'', S (url_Redacted u)]))"
proof (induction w cfg u tk st rule: loop.induct)
  case (1 w cfg u tk st)
  show ?case
  proof (cases "ChecksRan (fst st) <s Count cfg")
    case False
    then have "loop w cfg u tk st = st" by (simp add: loop.simps [of w cfg u tk st])
    then show ?thesis by (intro exI [of _ "[]"]) simp
  next
    case True
    let ?st' = "loop_body w cfg u tk st"
    have l: "loop w cfg u tk st = loop w cfg u tk ?st'"
      using True by (simp add: loop.simps [of w cfg u tk st])
    have ran: "ChecksRan (fst ?st') = ChecksRan (fst st) + 1"
      using loop_body_summary [of w cfg u tk st] by auto
    have lt: "sint (ChecksRan (fst st)) < sint (Count cfg)"
      using True by (simp add: word_sless_alt)
    have r: "sint (ChecksRan (fst ?st')) = sint (ChecksRan (fst st)) + 1"
      unfolding ran by (rule sint_succ [OF lt])
    from "1.IH" [OF True] obtain chunks where
      t: "snd (loop w cfg u tk ?st') = snd ?st' @ concat chunks"
      and n: "sint (ChecksRan (fst (loop w cfg u tk ?st'))) = sint (ChecksRan (fst ?st')) + int (length chunks)"
      and f: "\<forall>c \<in> set chunks. \<exists>evs lg. c = evs @ [lg] @ waitForTicker tk []
           \<and> (evs = [] \<or> (\<exists>call. evs = [Net call]))
           \<and> (lg = Errorln [S ''Failed to reach URL:'', S (url_Redacted u)]
                \<or> (\<exists>code. code \<noteq> ExpectedStatusCode cfg
                      \<and> lg = Errorln [S ''Got a'', I code, S ''with a'', S MethodGet, S ''to'',
                                       S (url_Redacted u)])
                \<or> lg = Infoln [S ''Got a'', I (ExpectedStatusCode cfg), S ''with a'', S MethodGet,
                                S ''to'', S (url_Redacted u)])"
      by blast
    from loop_body_trace [of w cfg u tk st] obtain evs lg where
      b: "snd ?st' = snd st @ evs @ [lg] @ waitForTicker tk []"
      and bf: "(evs = [] \<or> (\<exists>call. evs = [Net call]))
           \<and> (lg = Errorln [S ''Failed to reach URL:'', S (url_Redacted u)]
                \<or> (\<exists>code. code \<noteq> ExpectedStatusCode cfg
                      \<and> lg = Errorln [S ''Got a'', I code, S ''with a'', S MethodGet, S ''to'',
                                       S (url_Redacted u)])
                \<or> lg = Infoln [S ''Got a'', I (ExpectedStatusCode cfg), S ''with a'', S MethodGet,
                                S ''to'', S (url_Redacted u)])"
      by blast
    let ?c = "evs @ [lg] @ waitForTicker tk []"
    have "snd (loop w cfg u tk st) = snd st @ concat (?c # chunks)"
      using l t b by simp
    moreover have "sint (ChecksRan (fst (loop w cfg u tk st)))
        = sint (ChecksRan (fst st)) + int (length (?c # chunks))"
      using l n r by simp
    moreover have "\<forall>c \<in> set (?c # chunks). \<exists>evs lg. c = evs @ [lg] @ waitForTicker tk []
           \<and> (evs = [] \<or> (\<exists>call. evs = [Net call]))
           \<and> (lg = Errorln [S ''Failed to reach URL:'', S (url_Redacted u)]
                \<or> (\<exists>code. code \<noteq> ExpectedStatusCode cfg
                      \<and> lg = Errorln [S ''Got a'', I code, S ''with a'', S MethodGet, S ''to'',
                                       S (url_Redacted u)])
                \<or> lg = Infoln [S ''Got a'', I (ExpectedStatusCode cfg), S ''with a'', S MethodGet,
                                S ''to'', S (url_Redacted u)])"
      using f bf by (simp only: set_simps ball_simps) blast
    ultimately show ?thesis by blast
  qed
qed


text \<open>
  Claim C7. The trace of a run that returns is the first log line, then one group of
  events for each check that ran, then the stop of the ticker if there is one. A group is
  the network call when one was made, the log line of the outcome (dispatch error, wrong
  status or matching status) and, exactly when \<open>Seconds\<close> is positive, the wait on the
  ticker: the wait follows every request on every path, the last request included, and
  there is no wait when \<open>Seconds\<close> is 0.
\<close>

theorem runChecks_pacing:
  assumes "runChecks w cfg u = Return ((s, e), tr)"
  shows "\<exists>chunks.
      tr = Infoln [S ''Beginning check.''] # concat chunks
             @ (if 0 <s Seconds cfg then [TickerStop] else [])
    \<and> int (length chunks) = sint (ChecksRan s)
    \<and> (\<forall>c \<in> set chunks. \<exists>evs lg.
          c = evs @ [lg] @ (if 0 <s Seconds cfg then [TickerWait] else [])
          \<and> (evs = [] \<or> (\<exists>call. evs = [Net call]))
          \<and> (lg = Errorln [S ''Failed to reach URL:'', S (url_Redacted u)]
               \<or> (\<exists>code. code \<noteq> ExpectedStatusCode cfg
                     \<and> lg = Errorln [S ''Got a'', I code, S ''with a'', S MethodGet, S ''to'',
                                      S (url_Redacted u)])
               \<or> lg = Infoln [S ''Got a'', I (ExpectedStatusCode cfg), S ''with a'', S MethodGet,
                               S ''to'', S (url_Redacted u)]))"
proof -
  let ?st0 = "(\<lparr>ChecksRan = 0, ChecksPassed = 0, ChecksFailed = 0\<rparr>, [Infoln [S ''Beginning check.'']])"
  define tk where "tk = (if 0 <s Seconds cfg then Some \<lparr>C = Some (Seconds cfg * Second)\<rparr> else None)"
  have w: "waitForTicker tk [] = (if 0 <s Seconds cfg then [TickerWait] else [])"
    by (simp add: waitForTicker_def tk_def)
  from assms have s: "s = fst (loop w cfg u tk ?st0)"
    and tr: "tr = snd (loop w cfg u tk ?st0) @ (if 0 <s Seconds cfg then [TickerStop] else [])"
    by (simp_all add: runChecks_eq tk_def split: if_splits)
  from loop_trace [of w cfg u tk ?st0] obtain chunks where
    t: "snd (loop w cfg u tk ?st0) = snd ?st0 @ concat chunks"
    and n: "sint (ChecksRan (fst (loop w cfg u tk ?st0))) = sint (ChecksRan (fst ?st0)) + int (length chunks)"
    and f: "\<forall>c \<in> set chunks. \<exists>evs lg. c = evs @ [lg] @ waitForTicker tk []
           \<and> (evs = [] \<or> (\<exists>call. evs = [Net call]))
           \<and> (lg = Errorln [S ''Failed to reach URL:'', S (url_Redacted u)]
                \<or> (\<exists>code. code \<noteq> ExpectedStatusCode cfg
                      \<and> lg = Errorln [S ''Got a'', I code, S ''with a'', S MethodGet, S ''to'',
                                       S (url_Redacted u)])
                \<or> lg = Infoln [S ''Got a'', I (ExpectedStatusCode cfg), S ''with a'', S MethodGet,
                                S ''to'', S (url_Redacted u)])"
    by blast
  have "tr = Infoln [S ''Beginning check.''] # concat chunks
             @ (if 0 <s Seconds cfg then [TickerStop] else [])"
    using t tr by simp
  moreover have "int (length chunks) = sint (ChecksRan s)"
    using n s by simp
  ultimately show ?thesis
    using f unfolding w by blast
qed

text \<open>When the ticker can be created, \<open>runChecks\<close> returns, and its error is \<^verbatim>\<open>nil\<close>.\<close>

lemma runChecks_returns:
  assumes "\<not> (0 <s Seconds cfg \<and> Seconds cfg * Second \<le>s 0)"
  shows "\<exists>s tr. runChecks w cfg u = Return ((s, None), tr)"
  using assms by (auto simp: runChecks_eq)

lemma runChecks_error_nil:
  "runChecks w cfg u = Return ((s, e), tr) \<Longrightarrow> e = None"
  by (auto simp: runChecks_eq split: if_splits)

lemma runChecks_Panic_iff:
  "runChecks w cfg u = Panic msg \<longleftrightarrow>
     0 <s Seconds cfg \<and> Seconds cfg * Second \<le>s 0 \<and> msg = ''non-positive interval for NewTicker''"
  by (auto simp: runChecks_eq)

text \<open>With a count that is not positive the loop does nothing.\<close>

lemma loop_no_iteration:
  "\<not> ChecksRan (fst st) <s Count cfg \<Longrightarrow> loop w cfg u tk st = st"
  by (simp add: loop.simps [of w cfg u tk st])

lemma runChecks_no_iteration:
  assumes "Count cfg \<le>s 0" and "\<not> (0 <s Seconds cfg \<and> Seconds cfg * Second \<le>s 0)"
  shows "runChecks w cfg u =
     Return ((\<lparr>ChecksRan = 0, ChecksPassed = 0, ChecksFailed = 0\<rparr>, None),
             Infoln [S ''Beginning check.''] # (if 0 <s Seconds cfg then [TickerStop] else []))"
proof -
  have "\<not> (0 :: go_int) <s Count cfg" using assms(1) by (simp add: word_sle_eq word_sless_alt)
  then have "loop w cfg u tk (\<lparr>ChecksRan = 0, ChecksPassed = 0, ChecksFailed = 0\<rparr>, t)
      = (\<lparr>ChecksRan = 0, ChecksPassed = 0, ChecksFailed = 0\<rparr>, t)" for tk t
    by (simp add: loop_no_iteration)
  then show ?thesis using assms(2) by (auto simp: runChecks_eq)
qed

text \<open>A dispatch error in an iteration is counted as a failed check and the loop goes on.\<close>

lemma loop_body_dispatch_error:
  assumes "fst (callAPI w \<lparr>URL = u, Type = RequestType cfg, Body = RequestBody cfg\<rparr> (snd st)) = Inl err"
  shows "fst (loop_body w cfg u tk st)
     = (fst st)\<lparr>ChecksRan := ChecksRan (fst st) + 1, ChecksFailed := ChecksFailed (fst st) + 1\<rparr>"
proof -
  obtain res tr1 where c: "callAPI w \<lparr>URL = u, Type = RequestType cfg, Body = RequestBody cfg\<rparr> (snd st) = (res, tr1)"
    by (cases "callAPI w \<lparr>URL = u, Type = RequestType cfg, Body = RequestBody cfg\<rparr> (snd st)")
  with assms have "res = Inl err" by simp
  with c show ?thesis by (simp add: loop_body_def Let_def)
qed

text \<open>
  Two runs of two checks against a server that answers 200 and then 500: without a
  pause, and with a pause of one second.
\<close>

lemma runChecks_example:
  "runChecks
     \<lparr>newRequestError = (\<lambda>m url. None),
      roundTrip = (\<lambda>tr c. if length tr = 1 then Inr \<lparr>StatusCode = 200\<rparr>
                             else Inr \<lparr>StatusCode = 500\<rparr>),
      url_Parse = (\<lambda>s. Inr \<lparr>url_String = s, url_Redacted = s\<rparr>)\<rparr>
     \<lparr>CheckURL = ''http://x'', Count = 2, Seconds = 0, PassingPercent = 100,
      RequestType = ''GET'', RequestBody = ''{}'', ExpectedStatusCode = 200\<rparr>
     \<lparr>url_String = ''http://x'', url_Redacted = ''http://x''\<rparr>
   = Return ((\<lparr>ChecksRan = 2, ChecksPassed = 1, ChecksFailed = 1\<rparr>, None),
       [Infoln [S ''Beginning check.''],
        Net (HttpGet ''http://x''),
        Infoln [S ''Got a'', I 200, S ''with a'', S ''GET'', S ''to'', S ''http://x''],
        Net (HttpGet ''http://x''),
        Errorln [S ''Got a'', I 500, S ''with a'', S ''GET'', S ''to'', S ''http://x'']])"
  by (simp add: runChecks_def NewTicker_def Second_def loop.simps loop_body_def callAPI_def
      waitForTicker_def MethodGet_def word_sless_alt word_sle_eq Let_def)

lemma runChecks_paced_example:
  "runChecks
     \<lparr>newRequestError = (\<lambda>m url. None),
      roundTrip = (\<lambda>tr c. if length tr = 1 then Inr \<lparr>StatusCode = 200\<rparr>
                             else Inr \<lparr>StatusCode = 500\<rparr>),
      url_Parse = (\<lambda>s. Inr \<lparr>url_String = s, url_Redacted = s\<rparr>)\<rparr>
     \<lparr>CheckURL = ''http://x'', Count = 2, Seconds = 1, PassingPercent = 100,
      RequestType = ''GET'', RequestBody = ''{}'', ExpectedStatusCode = 200\<rparr>
     \<lparr>url_String = ''http://x'', url_Redacted = ''http://x''\<rparr>
   = Return ((\<lparr>ChecksRan = 2, ChecksPassed = 1, ChecksFailed = 1\<rparr>, None),
       [Infoln [S ''Beginning check.''],
        Net (HttpGet ''http://x''),
        Infoln [S ''Got a'', I 200, S ''with a'', S ''GET'', S ''to'', S ''http://x''],
        TickerWait,
        Net (HttpGet ''http://x''),
        Errorln [S ''Got a'', I 500, S ''with a'', S ''GET'', S ''to'', S ''http://x''],
        TickerWait,
        TickerStop])"
  by (simp add: runChecks_def NewTicker_def Second_def loop.simps loop_body_def callAPI_def
      waitForTicker_def MethodGet_def word_sless_alt word_sle_eq Let_def)

theorem runChecks_counters_witness:
  "0 \<le>s (2 :: go_int)
   \<and> runChecks
     \<lparr>newRequestError = (\<lambda>m url. None),
      roundTrip = (\<lambda>tr c. if length tr = 1 then Inr \<lparr>StatusCode = 200\<rparr>
                             else Inr \<lparr>StatusCode = 500\<rparr>),
      url_Parse = (\<lambda>s. Inr \<lparr>url_String = s, url_Redacted = s\<rparr>)\<rparr>
     \<lparr>CheckURL = ''http://x'', Count = 2, Seconds = 0, PassingPercent = 100,
      RequestType = ''GET'', RequestBody = ''{}'', ExpectedStatusCode = 200\<rparr>
     \<lparr>url_String = ''http://x'', url_Redacted = ''http://x''\<rparr>
   = Return ((\<lparr>ChecksRan = 2, ChecksPassed = 1, ChecksFailed = 1\<rparr>, None),
       [Infoln [S ''Beginning check.''],
        Net (HttpGet ''http://x''),
        Infoln [S ''Got a'', I 200, S ''with a'', S ''GET'', S ''to'', S ''http://x''],
        Net (HttpGet ''http://x''),
        Errorln [S ''Got a'', I 500, S ''with a'', S ''GET'', S ''to'', S ''http://x'']])
   \<and> ChecksRan \<lparr>ChecksRan = 2, ChecksPassed = 1, ChecksFailed = 1\<rparr>
       = ChecksPassed \<lparr>ChecksRan = 2, ChecksPassed = 1, ChecksFailed = 1\<rparr>
         + ChecksFailed \<lparr>ChecksRan = 2, ChecksPassed = 1, ChecksFailed = 1\<rparr>
   \<and> ChecksRan \<lparr>ChecksRan = 2, ChecksPassed = 1, ChecksFailed = 1\<rparr> = 2"
proof -
  let ?w = "\<lparr>newRequestError = (\<lambda>m url. None),
      roundTrip = (\<lambda>tr c. if length tr = 1 then Inr \<lparr>StatusCode = 200\<rparr>
                             else Inr \<lparr>StatusCode = 500\<rparr>),
      url_Parse = (\<lambda>s. Inr \<lparr>url_String = s, url_Redacted = s\<rparr>)\<rparr>"
  let ?cfg = "\<lparr>CheckURL = ''http://x'', Count = 2, Seconds = 0, PassingPercent = 100,
      RequestType = ''GET'', RequestBody = ''{}'', ExpectedStatusCode = 200\<rparr>"
  let ?u = "\<lparr>url_String = ''http://x'', url_Redacted = ''http://x''\<rparr>"
  let ?s = "\<lparr>ChecksRan = 2, ChecksPassed = 1, ChecksFailed = 1\<rparr>"
  have nn: "0 \<le>s (2 :: go_int)" by (simp add: word_sle_eq)
  from runChecks_counters [of ?w ?cfg ?u None "[]"] runChecks_example
  have "ChecksRan ?s = ChecksPassed ?s + ChecksFailed ?s
      \<and> (0 \<le>s Count ?cfg \<longrightarrow> ChecksRan ?s = Count ?cfg)"
    by blast
  with nn have "ChecksRan ?s = ChecksPassed ?s + ChecksFailed ?s \<and> ChecksRan ?s = 2"
    by simp
  with nn runChecks_example show ?thesis by (intro conjI) simp_all
qed

theorem runChecks_pacing_witness:
  "runChecks
     \<lparr>newRequestError = (\<lambda>m url. None),
      roundTrip = (\<lambda>tr c. if length tr = 1 then Inr \<lparr>StatusCode = 200\<rparr>
                             else Inr \<lparr>StatusCode = 500\<rparr>),
      url_Parse = (\<lambda>s. Inr \<lparr>url_String = s, url_Redacted = s\<rparr>)\<rparr>
     \<lparr>CheckURL = ''http://x'', Count = 2, Seconds = 1, PassingPercent = 100,
      RequestType = ''GET'', RequestBody = ''{}'', ExpectedStatusCode = 200\<rparr>
     \<lparr>url_String = ''http://x'', url_Redacted = ''http://x''\<rparr>
   = Return ((\<lparr>ChecksRan = 2, ChecksPassed = 1, ChecksFailed = 1\<rparr>, None),
       [Infoln [S ''Beginning check.''],
        Net (HttpGet ''http://x''),
        Infoln [S ''Got a'', I 200, S ''with a'', S ''GET'', S ''to'', S ''http://x''],
        TickerWait,
        Net (HttpGet ''http://x''),
        Errorln [S ''Got a'', I 500, S ''with a'', S ''GET'', S ''to'', S ''http://x''],
        TickerWait,
        TickerStop])
   \<and> (\<exists>chunks. length chunks = 2
         \<and> [Infoln [S ''Beginning check.''],
        Net (HttpGet ''http://x''),
        Infoln [S ''Got a'', I 200, S ''with a'', S ''GET'', S ''to'', S ''http://x''],
        TickerWait,
        Net (HttpGet ''http://x''),
        Errorln [S ''Got a'', I 500, S ''with a'', S ''GET'', S ''to'', S ''http://x''],
        TickerWait,
        TickerStop]
           = Infoln [S ''Beginning check.''] # concat chunks @ [TickerStop]
         \<and> (\<forall>c \<in> set chunks. last c = TickerWait))"
proof -
  let ?cfg = "\<lparr>CheckURL = ''http://x'', Count = 2, Seconds = 1, PassingPercent = 100,
      RequestType = ''GET'', RequestBody = ''{}'', ExpectedStatusCode = 200\<rparr>"
  let ?tr = "[Infoln [S ''Beginning check.''],
        Net (HttpGet ''http://x''),
        Infoln [S ''Got a'', I 200, S ''with a'', S ''GET'', S ''to'', S ''http://x''],
        TickerWait,
        Net (HttpGet ''http://x''),
        Errorln [S ''Got a'', I 500, S ''with a'', S ''GET'', S ''to'', S ''http://x''],
        TickerWait,
        TickerStop]"
  have sec: "(0 <s Seconds ?cfg) = True"
    by (simp add: word_sless_alt)
  have ran: "sint (ChecksRan \<lparr>ChecksRan = 2, ChecksPassed = 1, ChecksFailed = 1\<rparr>) = 2"
    by simp
  from runChecks_pacing [OF runChecks_paced_example]
  obtain chunks where all:
    "?tr = Infoln [S ''Beginning check.''] # concat chunks
             @ (if 0 <s Seconds ?cfg then [TickerStop] else [])
    \<and> int (length chunks) = sint (ChecksRan \<lparr>ChecksRan = 2, ChecksPassed = 1, ChecksFailed = 1\<rparr>)
    \<and> (\<forall>c \<in> set chunks. \<exists>evs lg.
          c = evs @ [lg] @ (if 0 <s Seconds ?cfg then [TickerWait] else [])
          \<and> (evs = [] \<or> (\<exists>call. evs = [Net call]))
          \<and> (lg = Errorln [S ''Failed to reach URL:'', S (url_Redacted \<lparr>url_String = ''http://x'', url_Redacted = ''http://x''\<rparr>)]
               \<or> (\<exists>code. code \<noteq> ExpectedStatusCode ?cfg
                     \<and> lg = Errorln [S ''Got a'', I code, S ''with a'', S MethodGet, S ''to'',
                                      S (url_Redacted \<lparr>url_String = ''http://x'', url_Redacted = ''http://x''\<rparr>)])
               \<or> lg = Infoln [S ''Got a'', I (ExpectedStatusCode ?cfg), S ''with a'', S MethodGet,
                               S ''to'', S (url_Redacted \<lparr>url_String = ''http://x'', url_Redacted = ''http://x''\<rparr>)]))"
    ..
  from all have t: "?tr = Infoln [S ''Beginning check.''] # concat chunks @ [TickerStop]"
    unfolding sec if_True by (rule conjunct1)
  from all have "int (length chunks) = 2"
    unfolding ran by (elim conjE)
  then have n: "length chunks = 2" by simp
  from all have f: "\<forall>c \<in> set chunks. \<exists>evs lg. c = evs @ [lg] @ [TickerWait]"
    unfolding sec if_True by (elim conjE) fast
  have l: "\<forall>c \<in> set chunks. last c = TickerWait"
  proof
    fix c assume "c \<in> set chunks"
    with f obtain evs lg where "c = evs @ [lg] @ [TickerWait]" by fast
    then show "last c = TickerWait" by simp
  qed
  from n t l have "\<exists>chunks. length chunks = 2
         \<and> ?tr = Infoln [S ''Beginning check.''] # concat chunks @ [TickerStop]
         \<and> (\<forall>c \<in> set chunks. last c = TickerWait)"
    by (intro exI [of _ chunks] conjI)
  with runChecks_paced_example show ?thesis by (rule conjI)
qed

subsection \<open>The period of the ticker wraps around\<close>

text \<open>
  \<open>runChecks\<close> creates the ticker when \<open>Seconds\<close> is positive, with the period
  \<^verbatim>\<open>time.Duration(cfg.Seconds) * time.Second\<close>. From 9223372037 seconds on the product
  does not fit \<^verbatim>\<open>int64\<close>; where it wraps around to a value that is not positive,
  \<^verbatim>\<open>time.NewTicker\<close> panics and \<open>runChecks\<close> does not return. \<open>parseConfig\<close> accepts such
  a value of \<^verbatim>\<open>SECONDS\<close>. For every other configuration \<open>runChecks_returns\<close>,
  \<open>runChecks_error_nil\<close>, \<open>loop_body_dispatch_error\<close> and \<open>runChecks_no_iteration\<close>
  above say what the three claims below say.
\<close>

text \<open>
  Claim C6. \<open>runChecks\<close> does not return a result for every configuration: with
  \<^verbatim>\<open>SECONDS=9223372037\<close> the configuration is accepted and \<open>runChecks\<close> panics in
  \<^verbatim>\<open>time.NewTicker\<close>, before the first request.
\<close>

theorem runChecks_panics_on_wrapped_period:
  "parseConfig [''CHECK_URL'' \<mapsto> ''http://x'', ''COUNT'' \<mapsto> ''1'', ''SECONDS'' \<mapsto> ''9223372037'']
     = Inr \<lparr>CheckURL = ''http://x'', Count = 1, Seconds = 9223372037, PassingPercent = 100,
      RequestType = ''GET'', RequestBody = ''{}'', ExpectedStatusCode = 200\<rparr>
   \<and> runChecks w
       \<lparr>CheckURL = ''http://x'', Count = 1, Seconds = 9223372037, PassingPercent = 100,
      RequestType = ''GET'', RequestBody = ''{}'', ExpectedStatusCode = 200\<rparr> u
     = Panic ''non-positive interval for NewTicker''"
  by (simp add: parseConfig_def readCheckURL_def parseCount_def parseSeconds_def
      parsePassingPercent_def parseRequestType_def parseRequestBody_def
      parseExpectedStatusCode_def Getenv_def HasPrefix_def default_values
      coercePassingPercent_def coerceExpectedStatusCode_def Atoi_def digit_of_def
      runChecks_def NewTicker_def Second_def word_sless_alt word_sle_eq)

text \<open>
  Claim C8. With a count of 0 \<open>runChecks\<close> does not return the summary of zeros for every
  configuration: with \<^verbatim>\<open>SECONDS=9223372037\<close> and \<^verbatim>\<open>COUNT\<close> unset it panics in
  \<^verbatim>\<open>time.NewTicker\<close>. No request is made.
\<close>

theorem runChecks_count_zero_panics:
  "parseConfig [''CHECK_URL'' \<mapsto> ''http://x'', ''SECONDS'' \<mapsto> ''9223372037'']
     = Inr \<lparr>CheckURL = ''http://x'', Count = 0, Seconds = 9223372037, PassingPercent = 100,
      RequestType = ''GET'', RequestBody = ''{}'', ExpectedStatusCode = 200\<rparr>
   \<and> runChecks w
       \<lparr>CheckURL = ''http://x'', Count = 0, Seconds = 9223372037, PassingPercent = 100,
      RequestType = ''GET'', RequestBody = ''{}'', ExpectedStatusCode = 200\<rparr> u
     = Panic ''non-positive interval for NewTicker''"
  by (simp add: parseConfig_def readCheckURL_def parseCount_def parseSeconds_def
      parsePassingPercent_def parseRequestType_def parseRequestBody_def
      parseExpectedStatusCode_def Getenv_def HasPrefix_def default_values
      coercePassingPercent_def coerceExpectedStatusCode_def Atoi_def digit_of_def
      runChecks_def NewTicker_def Second_def word_sless_alt word_sle_eq)

text \<open>
  Claim C9. With a negative count \<open>runChecks\<close> does not return the summary of zeros for
  every configuration: \<^verbatim>\<open>COUNT=-1\<close> is accepted, and with \<^verbatim>\<open>SECONDS=9223372037\<close>
  \<open>runChecks\<close> panics in \<^verbatim>\<open>time.NewTicker\<close>. No request is made.
\<close>

theorem runChecks_negative_count_panics:
  "parseConfig [''CHECK_URL'' \<mapsto> ''http://x'', ''COUNT'' \<mapsto> ''-1'', ''SECONDS'' \<mapsto> ''9223372037'']
     = Inr \<lparr>CheckURL = ''http://x'', Count = - 1, Seconds = 9223372037, PassingPercent = 100,
      RequestType = ''GET'', RequestBody = ''{}'', ExpectedStatusCode = 200\<rparr>
   \<and> runChecks w
       \<lparr>CheckURL = ''http://x'', Count = - 1, Seconds = 9223372037, PassingPercent = 100,
      RequestType = ''GET'', RequestBody = ''{}'', ExpectedStatusCode = 200\<rparr> u
     = Panic ''non-positive interval for NewTicker''"
  by (simp add: parseConfig_def readCheckURL_def parseCount_def parseSeconds_def
      parsePassingPercent_def parseRequestType_def parseRequestBody_def
      parseExpectedStatusCode_def Getenv_def HasPrefix_def default_values
      coercePassingPercent_def coerceExpectedStatusCode_def Atoi_def digit_of_def
      runChecks_def NewTicker_def Second_def word_sless_alt word_sle_eq)

section \<open>Properties of the threshold and the verdict\<close>

lemma power_int_2_pos: "0 < (2::rat) powi k"
  by (simp add: power_int_def)

lemma round_half_even_nonneg: "0 \<le> x \<Longrightarrow> 0 \<le> round_half_even x"
  by (auto simp: round_half_even_def Let_def)

lemma float32_round_nonneg: "0 \<le> x \<Longrightarrow> 0 \<le> float32_round x"
proof -
  assume x: "0 \<le> x"
  have p: "0 < (2::rat) powi (float32_exponent x - 23)" by (rule power_int_2_pos)
  then have "0 \<le> x / 2 powi (float32_exponent x - 23)" using x by simp
  then have "0 \<le> round_half_even (x / 2 powi (float32_exponent x - 23))"
    by (rule round_half_even_nonneg)
  with p show ?thesis by (simp add: float32_round_def Let_def)
qed

lemma float32_of_int_nonneg: "0 \<le>s n \<Longrightarrow> 0 \<le> float32_of_int n"
proof -
  assume "0 \<le>s n"
  then have "0 \<le> sint n" by (simp add: word_sle_eq)
  then have "0 \<le> (of_int (sint n) :: rat)" by (simp only: of_int_0_le_iff)
  then show ?thesis unfolding float32_of_int_def by (rule float32_round_nonneg)
qed

lemma passingScore_nonneg:
  assumes "0 \<le>s PassingPercent cfg" "0 \<le>s Count cfg"
  shows "0 \<le> passingScore cfg"
proof -
  have "0 \<le> float32_of_int (PassingPercent cfg) / 100"
    using float32_of_int_nonneg [OF assms(1)] by simp
  then have "0 \<le> passingPercentage cfg"
    unfolding passingPercentage_def float32_div_def by (rule float32_round_nonneg)
  then have "0 \<le> passingPercentage cfg * float32_of_int (Count cfg)"
    using float32_of_int_nonneg [OF assms(2)] by simp
  then show ?thesis
    unfolding passingScore_def float32_mul_def by (rule float32_round_nonneg)
qed

lemma int_of_float32_floor:
  assumes "0 \<le> x" "x < 2 ^ 63"
  shows "sint (int_of_float32 conv x) = \<lfloor>x\<rfloor>"
proof -
  have lo: "0 \<le> \<lfloor>x\<rfloor>" using assms(1) by simp
  have hi: "\<lfloor>x\<rfloor> < 2 ^ 63" using assms(2) by (simp add: floor_less_iff)
  have "int_of_float32 conv x = word_of_int \<lfloor>x\<rfloor>"
    using lo hi assms(1) by (simp add: int_of_float32_def Let_def)
  moreover have "sint (word_of_int \<lfloor>x\<rfloor> :: go_int) = \<lfloor>x\<rfloor>"
    using lo hi by (simp add: sint_sbintrunc' signed_take_bit_int_eq_self)
  ultimately show ?thesis by simp
qed

lemma float32_of_int_50: "float32_of_int 50 = 50"
  by code_simp

lemma float32_of_int_3: "float32_of_int 3 = 3"
  by code_simp

lemma float32_div_50_100: "float32_div 50 100 = 1 / 2"
  by code_simp

lemma float32_mul_half_3: "float32_mul (1 / 2) 3 = 3 / 2"
  by code_simp

lemma int_of_float32_3_2: "int_of_float32 conv (3 / 2) = 1"
  by code_simp

lemma passInt_50_3:
  "Count cfg = 3 \<Longrightarrow> PassingPercent cfg = 50 \<Longrightarrow> passInt conv cfg = 1"
  by (simp only: passInt_def passingScore_def passingPercentage_def float32_of_int_50
      float32_of_int_3 float32_div_50_100 float32_mul_half_3 int_of_float32_3_2)

text \<open>
  The error of one rounding is at most \<open>2\<^sup>-\<^sup>2\<^sup>4\<close> of the value, and integers below
  \<open>2\<^sup>2\<^sup>4\<close> in magnitude are \<^verbatim>\<open>float32\<close> values. So for a percentage between 0 and 100
  and a count up to 65536 the \<^verbatim>\<open>float32\<close> product is within \<open>1/100\<close> of the exact product
  \<open>PassingPercent * Count / 100\<close>, and the threshold is the floor of the exact product, or
  one less when the exact product is an integer.
\<close>

lemma power_int_2_nat: "0 \<le> k \<Longrightarrow> (2::rat) powi k = of_int (2 ^ nat k)"
  by (simp add: power_int_def)

lemma power_int_2_mono: "k \<le> l \<Longrightarrow> (2::rat) powi k \<le> 2 powi l"
  by (rule power_int_increasing) simp_all

lemma bitlen_rat_bounds:
  assumes "0 < a"
  shows "(2::rat) powi (bitlen a - 1) \<le> of_int a" and "of_int a < (2::rat) powi (bitlen a)"
proof -
  from assms have l: "1 \<le> bitlen a" by (auto simp: bitlen_alt_def)
  from bitlen_bounds [OF assms]
  have lo: "2 ^ nat (bitlen a - 1) \<le> a" and hi: "a < 2 ^ nat (bitlen a)" by simp_all
  have "(2::rat) powi (bitlen a - 1) = of_int (2 ^ nat (bitlen a - 1))"
    using l by (intro power_int_2_nat) simp
  also have "\<dots> \<le> of_int a" using lo by (simp only: of_int_le_iff)
  finally show "(2::rat) powi (bitlen a - 1) \<le> of_int a" .
  have "(of_int a :: rat) < of_int (2 ^ nat (bitlen a))" using hi by (simp only: of_int_less_iff)
  also have "\<dots> = (2::rat) powi (bitlen a)"
    using l by (intro power_int_2_nat [symmetric]) simp
  finally show "of_int a < (2::rat) powi (bitlen a)" .
qed

lemma float32_exponent_bounds:
  assumes "x \<noteq> 0"
  shows "2 powi (float32_exponent x) \<le> \<bar>x\<bar>" and "\<bar>x\<bar> < 2 powi (float32_exponent x + 1)"
proof -
  obtain a b where q: "quotient_of \<bar>x\<bar> = (a, b)" by (cases "quotient_of \<bar>x\<bar>")
  have b: "0 < b" by (rule quotient_of_denom_pos [OF q])
  have x: "\<bar>x\<bar> = of_int a / of_int b" by (rule quotient_of_div [OF q])
  have "0 < \<bar>x\<bar>" using assms by simp
  then have a: "0 < a" using b unfolding x by (simp add: zero_less_divide_iff)
  let ?d = "bitlen a - bitlen b"
  note A = bitlen_rat_bounds [OF a] and B = bitlen_rat_bounds [OF b]
  have bpos: "0 < (of_int b :: rat)" using b by simp
  have p2: "0 < (2::rat) powi k" for k by (simp add: power_int_def)
  have lo: "2 powi (?d - 1) \<le> \<bar>x\<bar>"
  proof -
    have "(2::rat) powi (?d - 1) * of_int b \<le> 2 powi (?d - 1) * 2 powi (bitlen b)"
      using B(2) p2 [of "?d - 1"] by (intro mult_left_mono) simp_all
    also have "\<dots> = 2 powi (bitlen a - 1)"
      by (simp flip: power_int_add)
    also have "\<dots> \<le> of_int a" by (rule A(1))
    finally show ?thesis unfolding x using bpos by (simp add: pos_le_divide_eq)
  qed
  have hi: "\<bar>x\<bar> < 2 powi (?d + 1)"
  proof -
    have "(of_int a :: rat) < 2 powi (bitlen a)" by (rule A(2))
    also have "\<dots> = 2 powi (?d + 1) * 2 powi (bitlen b - 1)"
      by (simp flip: power_int_add)
    also have "\<dots> \<le> 2 powi (?d + 1) * of_int b"
      using B(1) p2 [of "?d + 1"] by (intro mult_left_mono) simp_all
    finally show ?thesis unfolding x using bpos by (simp add: pos_divide_less_eq)
  qed
  have e: "float32_exponent x = (if 2 powi ?d \<le> \<bar>x\<bar> then ?d else ?d - 1)"
    by (simp add: float32_exponent_def q Let_def)
  show "2 powi (float32_exponent x) \<le> \<bar>x\<bar>"
    using lo by (simp add: e)
  show "\<bar>x\<bar> < 2 powi (float32_exponent x + 1)"
    using hi by (auto simp: e)
qed

lemma round_half_even_error: "\<bar>of_int (round_half_even y) - y\<bar> \<le> 1 / 2"
proof -
  define n where "n = \<lfloor>y\<rfloor>"
  have fl: "of_int n \<le> y" "y < of_int n + 1" unfolding n_def by linarith+
  consider "y - of_int n < 1 / 2" | "1 / 2 < y - of_int n" | "y - of_int n = 1 / 2" by linarith
  then show ?thesis
  proof cases
    case 1
    then have "round_half_even y = n" by (simp add: round_half_even_def n_def)
    with 1 fl show ?thesis by simp
  next
    case 2
    then have "round_half_even y = n + 1" by (simp add: round_half_even_def n_def)
    with 2 fl show ?thesis by simp
  next
    case 3
    then have "round_half_even y = n \<or> round_half_even y = n + 1"
      by (simp add: round_half_even_def n_def Let_def)
    with 3 fl show ?thesis by auto
  qed
qed

lemma round_half_even_of_int [simp]: "round_half_even (of_int k) = k"
  by (simp add: round_half_even_def)


lemma float32_round_error:
  "\<bar>float32_round x - x\<bar> \<le> \<bar>x\<bar> / 2 ^ 24"
proof (cases "x = 0")
  case True
  then show ?thesis by (simp add: float32_round_def)
next
  case False
  define e where "e = float32_exponent x"
  define ulp :: rat where "ulp = 2 powi (e - 23)"
  have up: "0 < ulp" by (simp add: ulp_def power_int_def)
  have r: "float32_round x = of_int (round_half_even (x / ulp)) * ulp"
    using False by (simp add: float32_round_def Let_def ulp_def e_def)
  have "float32_round x - x = (of_int (round_half_even (x / ulp)) - x / ulp) * ulp"
    using up by (simp add: r algebra_simps)
  then have "\<bar>float32_round x - x\<bar> = \<bar>of_int (round_half_even (x / ulp)) - x / ulp\<bar> * ulp"
    using up by (simp add: abs_mult)
  also have "\<dots> \<le> 1 / 2 * ulp"
    using round_half_even_error [of "x / ulp"] up by (intro mult_right_mono) simp_all
  also have "\<dots> = 2 powi e / 2 ^ 24"
  proof -
    have "(2::rat) powi (e - 23) * 2 powi 23 = 2 powi (e - 23 + 23)"
      by (rule power_int_add [symmetric]) simp
    then have "(2::rat) powi e = 2 powi (e - 23) * 8388608" by simp
    then show ?thesis by (simp add: ulp_def)
  qed
  also have "\<dots> \<le> \<bar>x\<bar> / 2 ^ 24"
    using float32_exponent_bounds(1) [OF False] by (simp add: e_def divide_right_mono)
  finally show ?thesis .
qed

lemma float32_round_int:
  assumes "\<bar>n\<bar> < 2 ^ 24"
  shows "float32_round (of_int n) = of_int n"
proof (cases "n = 0")
  case True
  then show ?thesis by (simp add: float32_round_def)
next
  case False
  define e where "e = float32_exponent (of_int n)"
  have nz: "(of_int n :: rat) \<noteq> 0" using False by simp
  have "(2::rat) powi e \<le> \<bar>of_int n\<bar>"
    unfolding e_def by (rule float32_exponent_bounds(1) [OF nz])
  also have "\<dots> < 2 powi 24"
  proof -
    have "(of_int \<bar>n\<bar> :: rat) < of_int (2 ^ 24)" using assms by (simp only: of_int_less_iff)
    then show ?thesis by simp
  qed
  finally have "e < 24"
    using power_int_2_mono [of 24 e] by (cases "e < 24") auto
  then have k: "0 \<le> 23 - e" by simp
  have ulp: "(2::rat) powi (e - 23) = 1 / of_int (2 ^ nat (23 - e))"
  proof -
    have "(2::rat) powi (e - 23) = inverse (2 powi (23 - e))"
      using power_int_minus [of "2::rat" "23 - e"] by simp
    also have "\<dots> = 1 / of_int (2 ^ nat (23 - e))"
      using power_int_2_nat [OF k] by (simp add: inverse_eq_divide)
    finally show ?thesis .
  qed
  have "of_int n / (2::rat) powi (e - 23) = of_int (n * 2 ^ nat (23 - e))"
    by (simp add: ulp)
  then have "round_half_even (of_int n / 2 powi (e - 23)) = n * 2 ^ nat (23 - e)"
    by (simp only: round_half_even_of_int)
  then show ?thesis
    using nz by (simp add: float32_round_def Let_def e_def [symmetric] ulp)
qed


lemma passingScore_error:
  assumes P: "0 \<le> P" "P \<le> 100" and N: "0 \<le> N" "N \<le> 65536"
    and pp: "sint (PassingPercent cfg) = P" and cnt: "sint (Count cfg) = N"
  shows "\<bar>passingScore cfg - of_int (P * N) / 100\<bar> < 1 / 100"
proof -
  define x :: rat where "x = of_int (P * N) / 100"
  define q where "q = passingPercentage cfg"
  have a: "float32_of_int (PassingPercent cfg) = of_int P"
    unfolding float32_of_int_def pp using P by (intro float32_round_int) simp
  have c: "float32_of_int (Count cfg) = of_int N"
    unfolding float32_of_int_def cnt using N by (intro float32_round_int) simp
  have q: "q = float32_round (of_int P / 100)"
    by (simp add: q_def passingPercentage_def float32_div_def a)
  have s: "passingScore cfg = float32_round (q * of_int N)"
    by (simp add: passingScore_def float32_mul_def c q_def)
  have Pr: "0 \<le> (of_int P :: rat)" and Nr: "0 \<le> (of_int N :: rat)"
    using P N by simp_all
  have x0: "0 \<le> x" unfolding x_def using P N by simp
  have "of_int (P * N) \<le> (of_int (100 * 65536) :: rat)"
    unfolding of_int_le_iff using P N by (intro mult_mono) simp_all
  then have xle: "x \<le> 65536" unfolding x_def by simp
  have q0: "0 \<le> q" unfolding q using Pr by (intro float32_round_nonneg) simp
  have e1: "\<bar>q - of_int P / 100\<bar> \<le> (of_int P / 100) / 2 ^ 24"
    using float32_round_error [of "of_int P / 100"] Pr unfolding q by simp
  have "q * of_int N - x = (q - of_int P / 100) * of_int N"
    by (simp add: x_def algebra_simps)
  then have "\<bar>q * of_int N - x\<bar> = \<bar>q - of_int P / 100\<bar> * \<bar>of_int N\<bar>"
    by (simp only: abs_mult)
  also have "\<dots> = \<bar>q - of_int P / 100\<bar> * of_int N"
    using Nr by simp
  also have "\<dots> \<le> (of_int P / 100) / 2 ^ 24 * of_int N"
    using e1 Nr by (rule mult_right_mono)
  also have "\<dots> = x / 2 ^ 24" by (simp add: x_def)
  finally have e2: "\<bar>q * of_int N - x\<bar> \<le> x / 2 ^ 24" .
  have qN0: "0 \<le> q * of_int N" using q0 Nr by simp
  have e3: "\<bar>passingScore cfg - q * of_int N\<bar> \<le> (q * of_int N) / 2 ^ 24"
    using float32_round_error [of "q * of_int N"] qN0 unfolding s by simp
  have qN: "q * of_int N \<le> x + x / 2 ^ 24" using e2 by linarith
  have "\<bar>passingScore cfg - x\<bar> \<le> \<bar>passingScore cfg - q * of_int N\<bar> + \<bar>q * of_int N - x\<bar>"
    by linarith
  also have "\<dots> \<le> (x + x / 2 ^ 24) / 2 ^ 24 + x / 2 ^ 24"
  proof -
    have "(q * of_int N) / 2 ^ 24 \<le> (x + x / 2 ^ 24) / 2 ^ 24"
      using qN by (rule divide_right_mono) simp
    with e3 e2 show ?thesis by linarith
  qed
  also have "\<dots> \<le> (65536 + 65536 / 2 ^ 24) / 2 ^ 24 + 65536 / 2 ^ 24"
    using xle by (simp add: divide_right_mono)
  also have "\<dots> < 1 / 100" by simp
  finally show ?thesis unfolding x_def .
qed

lemma passInt_near_exact:
  assumes "0 \<le>s PassingPercent cfg" "PassingPercent cfg \<le>s 100"
    and "0 \<le>s Count cfg" "Count cfg \<le>s 65536"
  shows "sint (passInt conv cfg) = sint (PassingPercent cfg) * sint (Count cfg) div 100
     \<or> (100 dvd sint (PassingPercent cfg) * sint (Count cfg)
          \<and> sint (passInt conv cfg) = sint (PassingPercent cfg) * sint (Count cfg) div 100 - 1)"
proof -
  define P where "P = sint (PassingPercent cfg)"
  define N where "N = sint (Count cfg)"
  define F where "F = P * N div 100"
  define r where "r = P * N mod 100"
  define sc where "sc = passingScore cfg"
  have P: "0 \<le> P" "P \<le> 100" and N: "0 \<le> N" "N \<le> 65536"
    using assms by (simp_all add: P_def N_def word_sle_eq)
  have err: "\<bar>sc - of_int (P * N) / 100\<bar> < 1 / 100"
    unfolding sc_def by (rule passingScore_error [OF P N]) (simp_all add: P_def N_def)
  have PN: "P * N = F * 100 + r" by (simp add: F_def r_def)
  have r: "0 \<le> r" "r < 100" by (simp_all add: r_def)
  define X :: rat where "X = of_int (P * N) / 100"
  define Fr :: rat where "Fr = of_int F"
  define R :: rat where "R = of_int r / 100"
  have x: "X = Fr + R"
    unfolding X_def Fr_def R_def PN by simp
  have err': "\<bar>sc - X\<bar> < 1 / 100" using err unfolding X_def .
  have sc0: "0 \<le> sc" unfolding sc_def by (rule passingScore_nonneg) (rule assms)+
  have "P * N \<le> 100 * 65536" using P N by (intro mult_mono) simp_all
  then have Fle: "F \<le> 65536" unfolding F_def by simp
  have F0: "0 \<le> F" unfolding F_def using P N by (simp add: pos_imp_zdiv_nonneg_iff)
  have "(of_int F :: rat) \<le> of_int 65536" using Fle by (simp only: of_int_le_iff)
  then have Frle: "Fr \<le> 65536" unfolding Fr_def by simp
  have "(of_int 0 :: rat) \<le> of_int r" "(of_int r :: rat) < of_int 100"
    using r by (simp_all only: of_int_le_iff of_int_less_iff)
  then have R: "0 \<le> R" "R < 1" unfolding R_def by simp_all
  have "sc < Fr + 2" using err' x R by linarith
  then have "sc < 65538" using Frle by linarith
  then have "sc < 2 ^ 63" by simp
  with sc0 have fl: "sint (passInt conv cfg) = \<lfloor>sc\<rfloor>"
    unfolding passInt_def sc_def by (intro int_of_float32_floor)
  show ?thesis
  proof (cases "r = 0")
    case True
    then have d: "100 dvd P * N" by (simp add: r_def dvd_eq_mod_eq_0)
    from True have "R = 0" by (simp add: R_def)
    with err' x have "Fr - 1 \<le> sc" "sc < Fr + 1" by linarith+
    then have "of_int (F - 1) \<le> sc" "sc < of_int (F + 1)" by (simp_all add: Fr_def)
    then have "F - 1 \<le> \<lfloor>sc\<rfloor>" "\<lfloor>sc\<rfloor> < F + 1"
      by (simp_all only: le_floor_iff floor_less_iff)
    then have "\<lfloor>sc\<rfloor> = F \<or> \<lfloor>sc\<rfloor> = F - 1" by linarith
    with d fl show ?thesis unfolding P_def [symmetric] N_def [symmetric] F_def by auto
  next
    case False
    with r have "1 \<le> r" "r \<le> 99" by simp_all
    then have "(of_int 1 :: rat) \<le> of_int r" "(of_int r :: rat) \<le> of_int 99"
      by (simp_all only: of_int_le_iff)
    then have "1 / 100 \<le> R" "R \<le> 99 / 100" unfolding R_def by simp_all
    with err' x have "Fr \<le> sc" "sc < Fr + 1" by linarith+
    then have "of_int F \<le> sc" "sc < of_int F + 1" by (simp_all add: Fr_def)
    then have "\<lfloor>sc\<rfloor> = F" by (simp add: floor_unique)
    with fl show ?thesis unfolding P_def [symmetric] N_def [symmetric] F_def by simp
  qed
qed

text \<open>
  Claim C2. The threshold \<open>passInt\<close> is the \<^verbatim>\<open>float32\<close> product of
  \<^verbatim>\<open>float32(PassingPercent) / 100\<close> and \<^verbatim>\<open>float32(Count)\<close>, each operation rounded to
  \<^verbatim>\<open>float32\<close>, with the fraction discarded. For a percentage and a count that are not
  negative the product is not negative, and then discarding the fraction is taking the
  floor. For a percentage between 0 and 100 and a count up to 65536 the threshold is
  \<open>\<lfloor>PassingPercent * Count / 100\<rfloor>\<close>, or one less when 100 divides
  \<open>PassingPercent * Count\<close>. The run reports success exactly when \<open>ChecksPassed\<close> is at
  least the threshold. A count of 3 with 50 percent gives the threshold 1.
\<close>

theorem passInt_verdict:
  "(enoughPassed (passInt conv cfg) summary cfg u = ReportSuccess
      \<longleftrightarrow> passInt conv cfg \<le>s ChecksPassed summary)
   \<and> passInt conv cfg
       = int_of_float32 conv
           (float32_round
              (float32_round (float32_round (of_int (sint (PassingPercent cfg))) / 100)
               * float32_round (of_int (sint (Count cfg)))))
   \<and> (0 \<le>s PassingPercent cfg \<and> 0 \<le>s Count cfg \<longrightarrow> 0 \<le> passingScore cfg)
   \<and> (0 \<le> passingScore cfg \<and> passingScore cfg < 2 ^ 63
        \<longrightarrow> sint (passInt conv cfg) = \<lfloor>passingScore cfg\<rfloor>)
   \<and> (0 \<le>s PassingPercent cfg \<and> PassingPercent cfg \<le>s 100
        \<and> 0 \<le>s Count cfg \<and> Count cfg \<le>s 65536
        \<longrightarrow> sint (passInt conv cfg) = sint (PassingPercent cfg) * sint (Count cfg) div 100
            \<or> (100 dvd sint (PassingPercent cfg) * sint (Count cfg)
                 \<and> sint (passInt conv cfg)
                     = sint (PassingPercent cfg) * sint (Count cfg) div 100 - 1))
   \<and> (Count cfg = 3 \<and> PassingPercent cfg = 50 \<longrightarrow> passInt conv cfg = 1)"
proof (intro conjI impI)
  show "enoughPassed (passInt conv cfg) summary cfg u = ReportSuccess
      \<longleftrightarrow> passInt conv cfg \<le>s ChecksPassed summary"
    by (auto simp: enoughPassed_def word_sle_eq word_sless_alt)
  show "passInt conv cfg
       = int_of_float32 conv
           (float32_round
              (float32_round (float32_round (of_int (sint (PassingPercent cfg))) / 100)
               * float32_round (of_int (sint (Count cfg)))))"
    by (simp add: passInt_def passingScore_def passingPercentage_def float32_mul_def
        float32_div_def float32_of_int_def)
next
  assume "0 \<le>s PassingPercent cfg \<and> 0 \<le>s Count cfg"
  then show "0 \<le> passingScore cfg" by (simp add: passingScore_nonneg)
next
  assume "0 \<le> passingScore cfg \<and> passingScore cfg < 2 ^ 63"
  then show "sint (passInt conv cfg) = \<lfloor>passingScore cfg\<rfloor>"
    unfolding passInt_def by (simp add: int_of_float32_floor)
next
  assume "0 \<le>s PassingPercent cfg \<and> PassingPercent cfg \<le>s 100
        \<and> 0 \<le>s Count cfg \<and> Count cfg \<le>s 65536"
  then have "0 \<le>s PassingPercent cfg" "PassingPercent cfg \<le>s 100"
    "0 \<le>s Count cfg" "Count cfg \<le>s 65536"
    by simp_all
  then show "sint (passInt conv cfg) = sint (PassingPercent cfg) * sint (Count cfg) div 100
            \<or> (100 dvd sint (PassingPercent cfg) * sint (Count cfg)
                 \<and> sint (passInt conv cfg)
                     = sint (PassingPercent cfg) * sint (Count cfg) div 100 - 1)"
    by (rule passInt_near_exact)
next
  assume "Count cfg = 3 \<and> PassingPercent cfg = 50"
  then show "passInt conv cfg = 1" by (simp add: passInt_50_3)
qed

theorem passInt_verdict_witness:
  "passInt (\<lambda>x. 0) \<lparr>CheckURL = ''http://x'', Count = 3, Seconds = 0, PassingPercent = 50,
        RequestType = ''GET'', RequestBody = ''{}'', ExpectedStatusCode = 200\<rparr> = 1
   \<and> enoughPassed 1 \<lparr>ChecksRan = 3, ChecksPassed = 1, ChecksFailed = 2\<rparr>
       \<lparr>CheckURL = ''http://x'', Count = 3, Seconds = 0, PassingPercent = 50,
        RequestType = ''GET'', RequestBody = ''{}'', ExpectedStatusCode = 200\<rparr>
       \<lparr>url_String = ''http://x'', url_Redacted = ''http://x''\<rparr> = ReportSuccess
   \<and> enoughPassed 1 \<lparr>ChecksRan = 3, ChecksPassed = 0, ChecksFailed = 3\<rparr>
       \<lparr>CheckURL = ''http://x'', Count = 3, Seconds = 0, PassingPercent = 50,
        RequestType = ''GET'', RequestBody = ''{}'', ExpectedStatusCode = 200\<rparr>
       \<lparr>url_String = ''http://x'', url_Redacted = ''http://x''\<rparr> \<noteq> ReportSuccess
   \<and> 0 \<le> passingScore \<lparr>CheckURL = ''http://x'', Count = 3, Seconds = 0, PassingPercent = 50,
        RequestType = ''GET'', RequestBody = ''{}'', ExpectedStatusCode = 200\<rparr>
   \<and> sint (passInt (\<lambda>x. 0) \<lparr>CheckURL = ''http://x'', Count = 3, Seconds = 0, PassingPercent = 50,
        RequestType = ''GET'', RequestBody = ''{}'', ExpectedStatusCode = 200\<rparr>) = 50 * 3 div 100"
proof -
  let ?cfg = "\<lparr>CheckURL = ''http://x'', Count = 3, Seconds = 0, PassingPercent = 50,
        RequestType = ''GET'', RequestBody = ''{}'', ExpectedStatusCode = 200\<rparr>"
  let ?u = "\<lparr>url_String = ''http://x'', url_Redacted = ''http://x''\<rparr>"
  note t1 = passInt_verdict [of "\<lambda>x. 0" ?cfg "\<lparr>ChecksRan = 3, ChecksPassed = 1, ChecksFailed = 2\<rparr>" ?u]
  note t0 = passInt_verdict [of "\<lambda>x. 0" ?cfg "\<lparr>ChecksRan = 3, ChecksPassed = 0, ChecksFailed = 3\<rparr>" ?u]
  have c: "Count ?cfg = 3 \<and> PassingPercent ?cfg = 50" by simp
  from t1 have "Count ?cfg = 3 \<and> PassingPercent ?cfg = 50 \<longrightarrow> passInt (\<lambda>x. 0) ?cfg = 1"
    by (elim conjE)
  from this c have p: "passInt (\<lambda>x. 0) ?cfg = 1" by (rule mp)
  from t1 have "enoughPassed (passInt (\<lambda>x. 0) ?cfg)
         \<lparr>ChecksRan = 3, ChecksPassed = 1, ChecksFailed = 2\<rparr> ?cfg ?u = ReportSuccess
      \<longleftrightarrow> passInt (\<lambda>x. 0) ?cfg \<le>s ChecksPassed \<lparr>ChecksRan = 3, ChecksPassed = 1, ChecksFailed = 2\<rparr>"
    by (rule conjunct1)
  then have ok: "enoughPassed 1 \<lparr>ChecksRan = 3, ChecksPassed = 1, ChecksFailed = 2\<rparr> ?cfg ?u
      = ReportSuccess"
    unfolding p by (simp add: word_sle_eq)
  from t0 have "enoughPassed (passInt (\<lambda>x. 0) ?cfg)
         \<lparr>ChecksRan = 3, ChecksPassed = 0, ChecksFailed = 3\<rparr> ?cfg ?u = ReportSuccess
      \<longleftrightarrow> passInt (\<lambda>x. 0) ?cfg \<le>s ChecksPassed \<lparr>ChecksRan = 3, ChecksPassed = 0, ChecksFailed = 3\<rparr>"
    by (rule conjunct1)
  then have nok: "enoughPassed 1 \<lparr>ChecksRan = 3, ChecksPassed = 0, ChecksFailed = 3\<rparr> ?cfg ?u
      \<noteq> ReportSuccess"
    unfolding p by (simp add: word_sle_eq)
  have s: "0 \<le>s PassingPercent ?cfg \<and> 0 \<le>s Count ?cfg" by (simp add: word_sle_eq)
  from t1 have "0 \<le>s PassingPercent ?cfg \<and> 0 \<le>s Count ?cfg \<longrightarrow> 0 \<le> passingScore ?cfg"
    by (elim conjE)
  from this s have nn: "0 \<le> passingScore ?cfg" by (rule mp)
  have r: "0 \<le>s PassingPercent ?cfg \<and> PassingPercent ?cfg \<le>s 100
        \<and> 0 \<le>s Count ?cfg \<and> Count ?cfg \<le>s 65536"
    by (simp add: word_sle_eq)
  from t1 have "0 \<le>s PassingPercent ?cfg \<and> PassingPercent ?cfg \<le>s 100
        \<and> 0 \<le>s Count ?cfg \<and> Count ?cfg \<le>s 65536
        \<longrightarrow> sint (passInt (\<lambda>x. 0) ?cfg) = sint (PassingPercent ?cfg) * sint (Count ?cfg) div 100
            \<or> (100 dvd sint (PassingPercent ?cfg) * sint (Count ?cfg)
                 \<and> sint (passInt (\<lambda>x. 0) ?cfg)
                     = sint (PassingPercent ?cfg) * sint (Count ?cfg) div 100 - 1)"
    by (elim conjE)
  from this r have "sint (passInt (\<lambda>x. 0) ?cfg) = sint (PassingPercent ?cfg) * sint (Count ?cfg) div 100
            \<or> (100 dvd sint (PassingPercent ?cfg) * sint (Count ?cfg)
                 \<and> sint (passInt (\<lambda>x. 0) ?cfg)
                     = sint (PassingPercent ?cfg) * sint (Count ?cfg) div 100 - 1)"
    by (rule mp)
  then have ex: "sint (passInt (\<lambda>x. 0) ?cfg) = 50 * 3 div 100"
    by simp
  from p ok nok nn ex show ?thesis by blast
qed

text \<open>
  The rounding to \<^verbatim>\<open>float32\<close> shows: 42 percent of 150 checks is 63 checks, and the
  threshold is 62, since \<^verbatim>\<open>float32(42) / 100\<close> is below \<open>42/100\<close>.
\<close>

lemma passingPercentage_42:
  "PassingPercent cfg = 42 \<Longrightarrow> passingPercentage cfg = 14092861 / 33554432"
proof -
  have "float32_div (float32_of_int 42) 100 = 14092861 / 33554432" by code_simp
  then show "PassingPercent cfg = 42 \<Longrightarrow> passingPercentage cfg = 14092861 / 33554432"
    by (simp only: passingPercentage_def)
qed

lemma passInt_42_150:
  assumes "PassingPercent cfg = 42" and "Count cfg = 150"
  shows "passInt conv cfg = 62"
proof -
  have m: "float32_mul (14092861 / 33554432) (float32_of_int 150) = 16515071 / 262144"
    by code_simp
  have t: "int_of_float32 conv (16515071 / 262144) = 62"
    by code_simp
  show ?thesis
    by (simp only: passInt_def passingScore_def passingPercentage_42 [OF assms(1)] assms(2) m t)
qed

text \<open>
  In \<open>main\<close>: once the configuration and the URL are accepted and \<open>runChecks\<close> has
  returned, success is reported exactly when enough checks passed.
\<close>

lemma main_reports_success_iff:
  assumes "parseConfig env = Inr cfg" and "url_Parse w (CheckURL cfg) = Inr u"
    and "runChecks w cfg u = Return ((summary, e), tr)"
  shows "main conv w env = Return ReportSuccess \<longleftrightarrow> passInt conv cfg \<le>s ChecksPassed summary"
proof -
  from assms(3) have "e = None" by (rule runChecks_error_nil)
  with assms have "main conv w env = Return (enoughPassed (passInt conv cfg) summary cfg u)"
    by (simp add: main_def)
  then show ?thesis
    by (auto simp: enoughPassed_def word_sle_eq word_sless_alt)
qed

lemma main_config_error:
  "parseConfig env = Inl err \<Longrightarrow> main conv w env = Return (ReportFailure err)"
  by (simp add: main_def)

end
